theory Spec2Isabelle
  imports Main "HOL-Library.Sublist" "HOL-Library.AList" "HOL-Library.Multiset"
begin

section \<open>Python strings\<close>

text \<open>
  A Python \<open>str\<close> is a sequence of Unicode code points, and \<open>len\<close> counts code points.
  The names in the catalogue and the guesses may hold characters beyond Latin-1 (the
  curly quotes U+2018 .. U+201D), so a string is a list of code points.  \<open>S\<close> embeds an
  ASCII literal.
\<close>

type_synonym pystr = "nat list"

definition S :: "string \<Rightarrow> pystr" where
  "S s = map of_char s"

text \<open>\<open>str.isspace\<close> on one code point: the characters \<open>str.strip()\<close> removes.\<close>

definition isspace :: "nat \<Rightarrow> bool" where
  "isspace c = ((9 \<le> c \<and> c \<le> 13) \<or> (28 \<le> c \<and> c \<le> 32) \<or> c = 133 \<or> c = 160
     \<or> c = 5760 \<or> (8192 \<le> c \<and> c \<le> 8202) \<or> c = 8232 \<or> c = 8233 \<or> c = 8239
     \<or> c = 8287 \<or> c = 12288)"

text \<open>\<open>s.strip(chars)\<close>, with the set of characters to remove given as a predicate.\<close>

definition strip_where :: "(nat \<Rightarrow> bool) \<Rightarrow> pystr \<Rightarrow> pystr" where
  "strip_where P s = rev (dropWhile P (rev (dropWhile P s)))"

definition strip :: "pystr \<Rightarrow> pystr" where
  "strip s = strip_where isspace s"

text \<open>\<open>str(n)\<close> for a Python int.\<close>

fun str_nat :: "nat \<Rightarrow> pystr" where
  "str_nat n = (if n < 10 then [48 + n] else str_nat (n div 10) @ [48 + n mod 10])"

definition str_int :: "int \<Rightarrow> pystr" where
  "str_int i = (if i < 0 then 45 # str_nat (nat (- i)) else str_nat (nat i))"

section \<open>The player catalogue\<close>

text \<open>
  One row of \<open>players_df\<close> after loading: the columns of the CSV file that the
  application reads.  The text columns are strings (missing values were replaced by the
  empty string), the three counting columns are integers.
\<close>

record player =
  name :: pystr
  date_of_birth :: pystr
  place_of_birth :: pystr
  country_of_birth :: pystr
  position :: pystr
  appearances :: int
  goals :: int
  spells :: int
  seasons :: pystr
  seasons2 :: pystr
  joined_from :: pystr
  left_for :: pystr

text \<open>\<open>split_name\<close>: the name is cut at its first space into first and last name.\<close>

definition split_name :: "pystr \<Rightarrow> pystr \<times> pystr" where
  "split_name nm =
     (let name_str = strip_where (\<lambda>c. c = 34) (strip nm)
      in if 32 \<in> set name_str
         then (takeWhile (\<lambda>c. c \<noteq> 32) name_str, tl (dropWhile (\<lambda>c. c \<noteq> 32) name_str))
         else (name_str, []))"

text \<open>The derived columns \<open>first name\<close> and \<open>last name\<close>.\<close>

definition first_name :: "player \<Rightarrow> pystr" where
  "first_name p = fst (split_name (name p))"

definition last_name :: "player \<Rightarrow> pystr" where
  "last_name p = snd (split_name (name p))"

datatype error = IndexError | AttributeError | ValueError | OverflowError
  | OSError | UnicodeDecodeError | RecursionError

text \<open>
  \<open>players_df.iloc[i]\<close>: positional access, where a negative position counts from the
  end.  The row comes with its label (\<open>player.name\<close> in pandas), which is its position.
\<close>

definition iloc :: "player list \<Rightarrow> int \<Rightarrow> error + (nat \<times> player)" where
  "iloc players i =
     (let n = int (length players); j = (if i < 0 then n + i else i)
      in if 0 \<le> j \<and> j < n then Inr (nat j, players ! nat j) else Inl IndexError)"

section \<open>Clues\<close>

datatype fact = Era | Birth | Spells | Seasons | Seasons2 | Appearances | Goals
  | Joined_from | Left_for | Position

type_synonym clue = "pystr \<times> fact set"

text \<open>
  \<open>_extract_era\<close>.  The regular expression search \<open>re.findall(r'(\d{4})', s)\<close>,
  followed by \<open>int\<close>, is the parameter \<open>years_of\<close>.
\<close>

definition extract_era :: "(pystr \<Rightarrow> int list) \<Rightarrow> pystr \<Rightarrow> pystr" where
  "extract_era years_of seasons_str =
     (if seasons_str = [] then []
      else let years = years_of seasons_str
           in if years = [] then []
              else let decades = sort (remdups (map (\<lambda>y. y div 10 * 10) years))
                   in if length decades = 1
                      then S ''the '' @ str_int (hd decades) @ S ''s''
                      else S ''the '' @ str_int (hd decades) @ S ''s and ''
                           @ str_int (last decades) @ S ''s'')"

text \<open>The text of the \<open>left_for\<close> clue.\<close>

definition left_for_clue :: "player \<Rightarrow> pystr" where
  "left_for_clue p =
     (if sublist (S ''Retired'') (left_for p) then []
      else if strip (left_for p) = S ''Still at club'' then S ''This player is still at the club.''
      else S ''This player left Brighton to join '' @ left_for p)"

definition era_clue :: "(pystr \<Rightarrow> int list) \<Rightarrow> player \<Rightarrow> pystr" where
  "era_clue years_of p =
     (let era = extract_era years_of (seasons p)
      in if era \<noteq> [] then S ''This player played for Brighton during '' @ era @ S ''.'' else [])"

definition goals_clue :: "player \<Rightarrow> pystr" where
  "goals_clue p = S ''This player scored '' @ str_int (goals p) @ S '' league goals for Brighton.''"

definition tier_1 :: "(pystr \<Rightarrow> int list) \<Rightarrow> player \<Rightarrow> clue list" where
  "tier_1 years_of p =
     [ (if seasons p = [] then era_clue years_of p else [], {Era}),
       (S ''This player was born in '' @ place_of_birth p @ S '', '' @ country_of_birth p
          @ S '' and has '' @ str_int (spells p) @ S '' spell(s) at Brighton.'', {Birth, Spells}),
       (if seasons p \<noteq> [] then S ''Seasons at Brighton: '' @ seasons p else [], {Seasons}),
       (if seasons2 p \<noteq> [] then S ''Seasons at Brighton during second spell: '' @ seasons2 p
        else [], {Seasons2}) ]"

definition tier_2 :: "player \<Rightarrow> clue list" where
  "tier_2 p =
     [ (S ''This player made '' @ str_int (appearances p) @ S '' league appearances for Brighton.'',
          {Appearances}),
       (goals_clue p, {Goals}),
       (S ''This player joined Brighton from '' @ joined_from p, {Joined_from}),
       (left_for_clue p, {Left_for}) ]"

definition tier_3 :: "player \<Rightarrow> clue list" where
  "tier_3 p =
     [ (S ''This player is a '' @ position p @ S ''.'', {Position}),
       (S ''This player was born on '' @ date_of_birth p @ S '', in '' @ place_of_birth p
          @ S '', '' @ country_of_birth p @ S ''.'', {Birth}) ]"

text \<open>Removal of the empty clues of a tier: \<open>[(c, t) for c, t in tier if c.strip()]\<close>.\<close>

definition nonblank :: "clue list \<Rightarrow> clue list" where
  "nonblank tier = filter (\<lambda>(c, t). strip c \<noteq> []) tier"

text \<open>
  The final loop of \<open>build_clues\<close>: a clue is kept when none of its tags has been used.
  \<open>keep_clues\<close> returns the kept clues with their tags; the loop of the source appends
  the text of each.
\<close>

fun keep_clues :: "clue list \<Rightarrow> fact set \<Rightarrow> clue list" where
  "keep_clues [] facts_used = []"
| "keep_clues ((c, tags) # rest) facts_used =
     (if tags \<inter> facts_used = {} then (c, tags) # keep_clues rest (facts_used \<union> tags)
      else keep_clues rest facts_used)"

text \<open>
  \<open>rng.shuffle\<close> of the generator \<open>random.Random(seed)\<close> is the parameter \<open>shuffle\<close>: it
  takes the state of the generator and a list, and returns the shuffled list and the
  next state.  \<open>g\<close> is the state of \<open>random.Random(seed)\<close>.
\<close>

definition clue_defs ::
  "(pystr \<Rightarrow> int list) \<Rightarrow> ('g \<Rightarrow> clue list \<Rightarrow> clue list \<times> 'g) \<Rightarrow> player \<Rightarrow> 'g \<Rightarrow> clue list" where
  "clue_defs years_of shuffle p g =
     (let (t1, g1) = shuffle g (nonblank (tier_1 years_of p));
          (t2, g2) = shuffle g1 (nonblank (tier_2 p));
          (t3, g3) = shuffle g2 (nonblank (tier_3 p))
      in t1 @ t2 @ t3)"

definition build_clues_tagged ::
  "(pystr \<Rightarrow> int list) \<Rightarrow> ('g \<Rightarrow> clue list \<Rightarrow> clue list \<times> 'g) \<Rightarrow> player \<Rightarrow> 'g \<Rightarrow> clue list" where
  "build_clues_tagged years_of shuffle p g = keep_clues (clue_defs years_of shuffle p g) {}"

definition build_clues ::
  "(pystr \<Rightarrow> int list) \<Rightarrow> ('g \<Rightarrow> clue list \<Rightarrow> clue list \<times> 'g) \<Rightarrow> player \<Rightarrow> 'g \<Rightarrow> pystr list" where
  "build_clues years_of shuffle p g = map fst (build_clues_tagged years_of shuffle p g)"

section \<open>Dates and the history file\<close>

text \<open>
  A \<open>date\<close> is its proleptic Gregorian ordinal (\<open>date.toordinal()\<close>, 1 for 1 January of
  year 1).  A \<open>datetime\<close> is a date with the time of day, in microseconds since midnight.
\<close>

type_synonym date = int

datatype datetime = Datetime (date_of: date) (time_of: nat)

text \<open>The year and the day of the year (\<open>tm_yday\<close>) of a date.\<close>

definition year_yday :: "date \<Rightarrow> int \<times> int" where
  "year_yday ordinal =
     (let n = ordinal - 1;
          n400 = n div 146097; n = n mod 146097;
          n100 = n div 36524; n = n mod 36524;
          n4 = n div 1461; n = n mod 1461;
          n1 = n div 365; n = n mod 365;
          y = n400 * 400 + 1 + n100 * 100 + n4 * 4 + n1
      in if n1 = 4 \<or> n100 = 4 then (y - 1, 366) else (y, n + 1))"

text \<open>
  The file \<open>recent_players.json\<close>, represented by what the library makes of it:
  \<^item> \<open>Missing\<close>: \<open>open\<close> raises \<open>FileNotFoundError\<close>;
  \<^item> \<open>Unreadable\<close>: \<open>open\<close> raises another \<open>OSError\<close> (\<open>PermissionError\<close>,
    \<open>IsADirectoryError\<close>);
  \<^item> \<open>Undecodable\<close>: the bytes are not text in the encoding, reading raises
    \<open>UnicodeDecodeError\<close>;
  \<^item> \<open>JsonError\<close>: \<open>json.load\<close> raises \<open>JSONDecodeError\<close>;
  \<^item> \<open>TooDeep\<close>: the nesting exceeds the recursion limit, \<open>json.load\<close> raises
    \<open>RecursionError\<close>;
  \<^item> \<open>Json doc\<close>: \<open>json.load\<close> returns a value, which is an object or not.
  A key of the object is a string on which \<open>datetime.fromisoformat\<close> either returns a
  datetime (\<open>Iso\<close>) or raises \<open>ValueError\<close> (\<open>NotIso\<close>).  The values of the object are
  player indices, integers.  \<open>isoformat\<close> followed by \<open>fromisoformat\<close> gives the datetime
  back, so \<open>save_recent_players\<close> writes \<open>Iso\<close> keys.
\<close>

datatype hist_key = Iso datetime | NotIso

datatype json_doc = JObject "(hist_key \<times> int) list" | JNonObject

datatype history_file = Missing | Unreadable | Undecodable | JsonError | TooDeep | Json json_doc

text \<open>
  The dictionary \<open>recent_players\<close>: an association list in insertion order, where an
  assignment to a key that is present replaces its value in place.
\<close>

type_synonym history = "(datetime \<times> int) list"

fun load_items :: "(hist_key \<times> int) list \<Rightarrow> history \<Rightarrow> error + history" where
  "load_items [] recent_players = Inr recent_players"
| "load_items ((Iso d, player_id) # rest) recent_players =
     load_items rest (AList.update d player_id recent_players)"
| "load_items ((NotIso, player_id) # rest) recent_players = Inl ValueError"

definition load_recent_players :: "history_file \<Rightarrow> error + history" where
  "load_recent_players f =
     (case f of
        Missing \<Rightarrow> Inr []
      | Unreadable \<Rightarrow> Inl OSError
      | Undecodable \<Rightarrow> Inl UnicodeDecodeError
      | JsonError \<Rightarrow> Inr []
      | TooDeep \<Rightarrow> Inl RecursionError
      | Json JNonObject \<Rightarrow> Inl AttributeError
      | Json (JObject items) \<Rightarrow> load_items items [])"

definition save_recent_players :: "history \<Rightarrow> history_file" where
  "save_recent_players recent_players = Json (JObject (map (\<lambda>(d, player_id). (Iso d, player_id)) recent_players))"

section \<open>The player of the day\<close>

text \<open>
  \<open>random.Random(seed).choice(seq)\<close>.  The first draw \<open>_randbelow(n)\<close> of the generator
  seeded with \<open>seed\<close> is the parameter \<open>randbelow\<close>.
\<close>

definition choice :: "(int \<Rightarrow> nat \<Rightarrow> nat) \<Rightarrow> int \<Rightarrow> nat list \<Rightarrow> error + nat" where
  "choice randbelow seed seq =
     (if seq = [] then Inl IndexError
      else let i = randbelow seed (length seq)
           in if i < length seq then Inr (seq ! i) else Inl IndexError)"

text \<open>The indices of the players with at least one league appearance.\<close>

definition all_indices :: "player list \<Rightarrow> nat list" where
  "all_indices players = filter (\<lambda>idx. appearances (players ! idx) > 0) [0..<length players]"

text \<open>The removal of the entries older than the cutoff date.\<close>

definition prune :: "date \<Rightarrow> history \<Rightarrow> history" where
  "prune cutoff_date recent_players = filter (\<lambda>(d, player_id). date_of d \<ge> cutoff_date) recent_players"

text \<open>
  The index forced by the debug hook: \<open>app.debug and current_player_index is not None\<close>.
\<close>

definition override :: "bool \<Rightarrow> int option \<Rightarrow> int option" where
  "override debug current_player_index = (if debug then current_player_index else None)"

text \<open>
  \<open>get_daily_player\<close>.  The globals \<open>app.debug\<close> and \<open>current_player_index\<close>, the date of
  the clock and the content of the history file are arguments; the result is the row
  returned, or the exception raised, together with the content of the file afterwards.
\<close>

definition get_daily_player ::
  "(int \<Rightarrow> nat \<Rightarrow> nat) \<Rightarrow> player list \<Rightarrow> bool \<Rightarrow> int option \<Rightarrow> date \<Rightarrow> history_file
   \<Rightarrow> (error + nat \<times> player) \<times> history_file" where
  "get_daily_player randbelow players debug current_player_index today f =
     (case override debug current_player_index of
        Some i \<Rightarrow> (iloc players i, f)
      | None \<Rightarrow>
         (case load_recent_players f of
            Inl e \<Rightarrow> (Inl e, f)
          | Inr loaded \<Rightarrow>
             if today - 30 < 1 then (Inl OverflowError, f)
             else
               (let cutoff_date = today - 30;
                    recent_players = prune cutoff_date loaded;
                    today_key = Datetime today 0
                in (case map_of recent_players today_key of
                      Some selected_index \<Rightarrow> (iloc players selected_index, f)
                    | None \<Rightarrow>
                       (let recently_used = set (map snd recent_players);
                            seed = fst (year_yday today) * 1000 + snd (year_yday today);
                            available_indices = filter (\<lambda>idx. int idx \<notin> recently_used) (all_indices players);
                            available_indices = (if available_indices = [] then all_indices players
                                                 else available_indices)
                        in (case choice randbelow seed available_indices of
                              Inl e \<Rightarrow> (Inl e, f)
                            | Inr selected_index \<Rightarrow>
                               (iloc players (int selected_index),
                                save_recent_players
                                  (AList.update today_key (int selected_index) recent_players))))))))"

text \<open>
  The selections of a sequence of days in production mode, each call reading the file
  that the call before left.
\<close>

fun select_days ::
  "(int \<Rightarrow> nat \<Rightarrow> nat) \<Rightarrow> player list \<Rightarrow> date list \<Rightarrow> history_file
   \<Rightarrow> (error + nat list) \<times> history_file" where
  "select_days randbelow players [] f = (Inr [], f)"
| "select_days randbelow players (d # ds) f =
     (case get_daily_player randbelow players False None d f of
        (Inl e, f') \<Rightarrow> (Inl e, f')
      | (Inr (idx, p), f') \<Rightarrow>
         (case select_days randbelow players ds f' of
            (Inl e, f'') \<Rightarrow> (Inl e, f'')
          | (Inr idxs, f'') \<Rightarrow> (Inr (idx # idxs), f'')))"

section \<open>The routes\<close>

record challenge =
  firstNameLength :: nat
  lastNameLength :: nat
  firstClue :: pystr
  player_id :: nat
  firstName :: pystr
  lastName :: pystr

text \<open>
  \<open>get_challenge\<close>.  \<open>build_clues\<close> is called without a seed, so the generator is seeded
  with the date and the label of the row: \<open>mk_rng today label\<close> is the state of
  \<open>random.Random(str(today) + str(label))\<close>.  An exception becomes the error response.
\<close>

definition get_challenge ::
  "(pystr \<Rightarrow> int list) \<Rightarrow> ('g \<Rightarrow> clue list \<Rightarrow> clue list \<times> 'g) \<Rightarrow> (date \<Rightarrow> nat \<Rightarrow> 'g)
   \<Rightarrow> (int \<Rightarrow> nat \<Rightarrow> nat) \<Rightarrow> player list \<Rightarrow> bool \<Rightarrow> int option \<Rightarrow> date \<Rightarrow> history_file
   \<Rightarrow> (error + challenge) \<times> history_file" where
  "get_challenge years_of shuffle mk_rng randbelow players debug current_player_index today f =
     (case get_daily_player randbelow players debug current_player_index today f of
        (Inl e, f') \<Rightarrow> (Inl e, f')
      | (Inr (label, p), f') \<Rightarrow>
         (case build_clues years_of shuffle p (mk_rng today label) of
            [] \<Rightarrow> (Inl IndexError, f')
          | c # cs \<Rightarrow>
             (Inr \<lparr> firstNameLength = length (first_name p),
                    lastNameLength = length (last_name p),
                    firstClue = c,
                    player_id = label,
                    firstName = first_name p,
                    lastName = last_name p \<rparr>, f')))"

text \<open>\<open>s.replace(old, new)\<close> for one-character \<open>old\<close> and \<open>new\<close>.\<close>

definition replace :: "nat \<Rightarrow> nat \<Rightarrow> pystr \<Rightarrow> pystr" where
  "replace old new s = map (\<lambda>c. if c = old then new else c) s"

text \<open>The function \<open>normalize\<close> local to \<open>check_guess\<close>: U+2019, U+2018, U+201C and U+201D, in this order.\<close>

definition normalize_str :: "pystr \<Rightarrow> pystr" where
  "normalize_str s = replace 8221 34 (replace 8220 34 (replace 8216 39 (replace 8217 39 s)))"

record guess_response =
  correct :: bool
  fullName :: "pystr option"

text \<open>\<open>check_guess\<close>.  \<open>str.lower\<close> is the parameter \<open>lower\<close>.\<close>

definition check_guess ::
  "(pystr \<Rightarrow> pystr) \<Rightarrow> player list \<Rightarrow> int \<Rightarrow> pystr \<Rightarrow> pystr \<Rightarrow> error + guess_response" where
  "check_guess lower players pid first_guess last_guess =
     (let guess_first = lower first_guess;
          guess_last = lower last_guess
      in case iloc players pid of
           Inl e \<Rightarrow> Inl e
         | Inr (label, p) \<Rightarrow>
            let is_correct = (normalize_str guess_first = normalize_str (lower (first_name p))
                              \<and> normalize_str guess_last = normalize_str (lower (last_name p)))
            in Inr \<lparr> correct = is_correct,
                     fullName = (if is_correct
                                 then Some (strip (first_name p @ S '' '' @ last_name p))
                                 else None) \<rparr>)"

text \<open>
  What the claims assume of \<open>shuffle\<close>: it returns a permutation of its argument.
\<close>

definition permutes :: "('g \<Rightarrow> clue list \<Rightarrow> clue list \<times> 'g) \<Rightarrow> bool" where
  "permutes shuffle = (\<forall>g xs. mset (fst (shuffle g xs)) = mset xs)"

text \<open>What the claims assume of \<open>randbelow\<close>: a draw below \<open>n\<close> is less than \<open>n\<close>.\<close>

definition randbelow_ok :: "(int \<Rightarrow> nat \<Rightarrow> nat) \<Rightarrow> bool" where
  "randbelow_ok randbelow = (\<forall>seed n. 0 < n \<longrightarrow> randbelow seed n < n)"

text \<open>
  The text columns, other than \<open>left_for\<close>, that reach a returned clue.  The date of birth
  is not among them: its clue shares the tag \<open>Birth\<close> with a clue of the first tier and is
  never kept.
\<close>

definition other_fields :: "player \<Rightarrow> pystr list" where
  "other_fields p = [place_of_birth p, country_of_birth p, position p,
     seasons p, seasons2 p, joined_from p]"

section \<open>Instances of the library functions\<close>

text \<open>
  Concrete functions for the parameters, used to evaluate the program on examples: the
  four-digit search on ASCII digits, a shuffle that rotates the list by the state of the
  generator, a draw that reduces the seed modulo the bound, and \<open>str.lower\<close> on ASCII
  letters (which is \<open>str.lower\<close> on every string of ASCII and caseless characters).
\<close>

definition isdigit :: "nat \<Rightarrow> bool" where
  "isdigit c = (48 \<le> c \<and> c \<le> 57)"

fun find_years :: "pystr \<Rightarrow> int list" where
  "find_years (a # b # c # d # rest) =
     (if isdigit a \<and> isdigit b \<and> isdigit c \<and> isdigit d
      then (int (a - 48) * 1000 + int (b - 48) * 100 + int (c - 48) * 10 + int (d - 48)) # find_years rest
      else find_years (b # c # d # rest))"
| "find_years s = []"

definition rotate_shuffle :: "nat \<Rightarrow> clue list \<Rightarrow> clue list \<times> nat" where
  "rotate_shuffle g xs = (rotate g xs, Suc g)"

definition randbelow_mod :: "int \<Rightarrow> nat \<Rightarrow> nat" where
  "randbelow_mod seed n = nat (seed mod int n)"

definition rng_of :: "date \<Rightarrow> nat \<Rightarrow> nat" where
  "rng_of today label = nat today + label"

definition lower_ascii :: "pystr \<Rightarrow> pystr" where
  "lower_ascii s = map (\<lambda>c. if 65 \<le> c \<and> c \<le> 90 then c + 32 else c) s"

text \<open>The example records of the specification.\<close>

definition dunk :: player where
  "dunk = \<lparr> name = S ''Lewis Dunk'', date_of_birth = S ''21 November 1991'',
     place_of_birth = S ''Brighton'', country_of_birth = S ''England'',
     position = S ''Defender'', appearances = 436, goals = 28, spells = 1,
     seasons = S ''2010'' @ [8211] @ S ''2024'', seasons2 = [],
     joined_from = S ''Youth team'', left_for = S ''Still at club'' \<rparr>"

definition omahony :: player where
  "omahony = \<lparr> name = S ''Mark O'' @ [39] @ S ''Mahony'', date_of_birth = S ''14 January 2005'',
     place_of_birth = S ''Cork'', country_of_birth = S ''Ireland'',
     position = S ''Forward'', appearances = 3, goals = 0, spells = 1,
     seasons = S ''2023'' @ [8211] @ S ''2024'', seasons2 = [],
     joined_from = S ''Cork City'', left_for = S ''Still at club'' \<rparr>"

definition bruno :: player where
  "bruno = \<lparr> name = S ''Bruno Saltor'', date_of_birth = S ''1 October 1980'',
     place_of_birth = S ''El Masnou'', country_of_birth = S ''Spain'',
     position = S ''Defender'', appearances = 235, goals = 5, spells = 1,
     seasons = S ''2012'' @ [8211] @ S ''2019'', seasons2 = [],
     joined_from = S ''Valencia'', left_for = S ''Retired'' \<rparr>"

text \<open>A record whose \<open>left_for\<close> says retired, and whose previous club has the word too.\<close>

definition veteran :: player where
  "veteran = \<lparr> name = S ''Sam Old'', date_of_birth = S ''1 May 1970'',
     place_of_birth = S ''Hove'', country_of_birth = S ''England'',
     position = S ''Goalkeeper'', appearances = 12, goals = 0, spells = 1,
     seasons = S ''1999'' @ [8211] @ S ''2000'', seasons2 = [],
     joined_from = S ''Retired (returned as cover)'', left_for = S ''Retired'' \<rparr>"

text \<open>A record without league appearances.\<close>

definition trialist :: player where
  "trialist = \<lparr> name = S ''Tom Trial'', date_of_birth = S ''2 February 2002'',
     place_of_birth = S ''Lewes'', country_of_birth = S ''England'',
     position = S ''Midfielder'', appearances = 0, goals = 0, spells = 1,
     seasons = S ''2021'', seasons2 = [],
     joined_from = S ''Youth team'', left_for = S ''Worthing'' \<rparr>"

text \<open>A catalogue of three, and a history file in which all three have been used.\<close>

definition used_up :: history_file where
  "used_up = Json (JObject [(Iso (Datetime 739921 0), 2), (Iso (Datetime 739922 0), 1),
     (Iso (Datetime 739923 0), 0)])"

definition squad :: "player list" where
  "squad = [dunk, omahony, bruno]"

text \<open>A catalogue of thirty eligible rows, and a file with an entry for one day.\<close>

definition big_squad :: "player list" where
  "big_squad = replicate 30 dunk"

definition cached :: history_file where
  "cached = Json (JObject [(Iso (Datetime 739924 0), 1)])"

declare str_nat.simps [simp del]

section \<open>Properties of the clue builder\<close>

lemmas clue_eval = build_clues_def build_clues_tagged_def clue_defs_def tier_1_def tier_2_def
  tier_3_def nonblank_def strip_def strip_where_def isspace_def S_def left_for_clue_def
  goals_clue_def era_clue_def extract_era_def str_int_def rotate_shuffle_def str_nat.simps
  sublist_code

lemma dunk_tagged:
  "map snd (build_clues_tagged find_years rotate_shuffle dunk 0)
   = [{Birth, Spells}, {Seasons}, {Goals}, {Joined_from}, {Left_for}, {Appearances}, {Position}]"
  by (simp add: clue_eval dunk_def)

lemma keep_clues_unused:
  "(c, t) \<in> set (keep_clues xs used) \<Longrightarrow> t \<inter> used = {}"
  by (induction xs used rule: keep_clues.induct) (auto split: if_splits)

lemma keep_clues_pairwise:
  "i < j \<Longrightarrow> j < length (keep_clues xs used) \<Longrightarrow>
   snd (keep_clues xs used ! i) \<inter> snd (keep_clues xs used ! j) = {}"
proof (induction xs used arbitrary: i j rule: keep_clues.induct)
  case (1 used)
  then show ?case by simp
next
  case (2 c tags rest used)
  show ?case
  proof (cases "tags \<inter> used = {}")
    case False
    with 2 show ?thesis by simp
  next
    case True
    let ?ks = "keep_clues rest (used \<union> tags)"
    from True have eq: "keep_clues ((c, tags) # rest) used = (c, tags) # ?ks" by simp
    show ?thesis
    proof (cases i)
      case 0
      with "2.prems" eq obtain j' where j': "j = Suc j'" "j' < length ?ks"
        by (cases j) auto
      then have "?ks ! j' \<in> set ?ks" by simp
      then have "(fst (?ks ! j'), snd (?ks ! j')) \<in> set ?ks" by simp
      then have "snd (?ks ! j') \<inter> (used \<union> tags) = {}" by (rule keep_clues_unused)
      with 0 j' eq show ?thesis by auto
    next
      case (Suc i')
      with "2.prems" eq obtain j' where j': "j = Suc j'" "j' < length ?ks" "i' < j'"
        by (cases j) auto
      with "2.IH"(1)[OF True, of i' j'] Suc eq show ?thesis by simp
    qed
  qed
qed

text \<open>
  Claim C1.  For every player record and every generator, the clues returned by
  \<open>build_clues\<close> are the texts of the kept candidates, and no two kept candidates have a
  fact tag in common: each fact is revealed by at most one clue of the list.
\<close>

theorem build_clues_fact_dedup:
  "build_clues years_of shuffle p g = map fst (build_clues_tagged years_of shuffle p g) \<and>
   (\<forall>i j. i < j \<and> j < length (build_clues_tagged years_of shuffle p g) \<longrightarrow>
      snd (build_clues_tagged years_of shuffle p g ! i)
        \<inter> snd (build_clues_tagged years_of shuffle p g ! j) = {})"
  by (simp add: build_clues_def build_clues_tagged_def keep_clues_pairwise)

theorem build_clues_fact_dedup_witness:
  "(0::nat) < 1 \<and> 1 < length (build_clues_tagged find_years rotate_shuffle dunk 0) \<and>
   snd (build_clues_tagged find_years rotate_shuffle dunk 0 ! 0)
     \<inter> snd (build_clues_tagged find_years rotate_shuffle dunk 0 ! 1) = {}"
proof -
  have len: "length (build_clues_tagged find_years rotate_shuffle dunk 0) = 7"
    using arg_cong[OF dunk_tagged, of length] by simp
  from build_clues_fact_dedup[of find_years rotate_shuffle dunk 0] len
  show ?thesis by simp
qed

lemma keep_clues_subset: "set (keep_clues xs used) \<subseteq> set xs"
  by (induction xs used rule: keep_clues.induct) auto

lemma keep_clues_keeps:
  "(c, t) \<in> set xs \<Longrightarrow> t \<inter> used = {} \<Longrightarrow>
   \<forall>x \<in> set xs. snd x \<inter> t \<noteq> {} \<longrightarrow> x = (c, t) \<Longrightarrow>
   (c, t) \<in> set (keep_clues xs used)"
proof (induction xs used rule: keep_clues.induct)
  case (1 used)
  then show ?case by simp
next
  case (2 c' t' rest used)
  from "2.prems"(3) have rest: "\<forall>x \<in> set rest. snd x \<inter> t \<noteq> {} \<longrightarrow> x = (c, t)" by simp
  show ?case
  proof (cases "(c', t') = (c, t)")
    case True
    with "2.prems"(2) show ?thesis by simp
  next
    case False
    with "2.prems"(3) have dis: "t' \<inter> t = {}" by fastforce
    from False "2.prems"(1) have mem: "(c, t) \<in> set rest" by auto
    show ?thesis
    proof (cases "t' \<inter> used = {}")
      case True
      from dis "2.prems"(2) have "t \<inter> (used \<union> t') = {}" by blast
      from "2.IH"(1)[OF True mem this rest] True show ?thesis by simp
    next
      case False
      from "2.IH"(2)[OF False mem "2.prems"(2) rest] False show ?thesis by simp
    qed
  qed
qed


lemma strip_nonempty: "\<not> isspace a \<Longrightarrow> strip (a # r) \<noteq> []"
  by (auto simp: strip_def strip_where_def dropWhile_eq_Nil_conv)

lemma strip_Nil: "strip [] = []"
  by (simp add: strip_def strip_where_def)

lemma strip_S_append: "\<not> isspace (of_char c) \<Longrightarrow> strip (S (c # cs) @ x) \<noteq> []"
  by (simp add: S_def strip_nonempty)

lemma era_clue_blank: "seasons p = [] \<Longrightarrow> era_clue years_of p = []"
  by (simp add: era_clue_def extract_era_def)

lemma nonblank_tier_3:
  "nonblank (tier_3 p) =
     [(S ''This player is a '' @ position p @ S ''.'', {Position}),
      (S ''This player was born on '' @ date_of_birth p @ S '', in '' @ place_of_birth p
          @ S '', '' @ country_of_birth p @ S ''.'', {Birth})]"
  by (simp add: nonblank_def tier_3_def strip_S_append isspace_def)


lemma nonblank_tier_2:
  "nonblank (tier_2 p) =
     [(S ''This player made '' @ str_int (appearances p) @ S '' league appearances for Brighton.'', {Appearances}),
      (goals_clue p, {Goals}),
      (S ''This player joined Brighton from '' @ joined_from p, {Joined_from})]
     @ (if strip (left_for_clue p) \<noteq> [] then [(left_for_clue p, {Left_for})] else [])"
  by (simp add: nonblank_def tier_2_def strip_S_append goals_clue_def isspace_def)


lemma nonblank_tier_1:
  "nonblank (tier_1 years_of p) =
     [(S ''This player was born in '' @ place_of_birth p @ S '', '' @ country_of_birth p
          @ S '' and has '' @ str_int (spells p) @ S '' spell(s) at Brighton.'', {Birth, Spells})]
     @ (if seasons p \<noteq> [] then [(S ''Seasons at Brighton: '' @ seasons p, {Seasons})] else [])
     @ (if seasons2 p \<noteq> [] then [(S ''Seasons at Brighton during second spell: '' @ seasons2 p, {Seasons2})] else [])"
proof -
  have a: "strip (S ''This player was born in '' @ x) \<noteq> []" for x
    by (simp add: strip_S_append isspace_def)
  have b: "strip (S ''Seasons at Brighton: '' @ x) \<noteq> []" for x
    by (simp add: strip_S_append isspace_def)
  have c: "strip (S ''Seasons at Brighton during second spell: '' @ x) \<noteq> []" for x
    by (simp add: strip_S_append isspace_def)
  show ?thesis
    by (cases "seasons p = []"; cases "seasons2 p = []")
       (simp_all add: nonblank_def tier_1_def a b c strip_Nil era_clue_blank)
qed


lemma sublist_field_sep:
  assumes "a \<notin> set n"
  shows "sublist n (f @ a # r) \<longleftrightarrow> sublist n f \<or> sublist n (a # r)"
proof -
  have "sublist n f" if "n = n1 @ n2" "suffix n1 f" "prefix n2 (a # r)" for n1 n2
  proof (cases n2)
    case Nil
    with that show ?thesis by (simp add: suffix_imp_sublist)
  next
    case (Cons x xs)
    with that have "x = a" by simp
    with Cons that assms show ?thesis by simp
  qed
  then show ?thesis unfolding sublist_append by blast
qed

lemma sublist_field_sep2:
  assumes "\<not> sublist [a, b] n" and "n = [] \<or> last n \<noteq> a"
  shows "sublist n (f @ a # b # r) \<longleftrightarrow> sublist n f \<or> sublist n (a # b # r)"
proof -
  have "sublist n f" if n: "n = n1 @ n2" and s: "suffix n1 f" and p: "prefix n2 (a # b # r)" for n1 n2
  proof (cases n2)
    case Nil
    with n s show ?thesis by (simp add: suffix_imp_sublist)
  next
    case (Cons x xs)
    with p have xa: "x = a" and pxs: "prefix xs (b # r)" by simp_all
    show ?thesis
    proof (cases xs)
      case Nil
      with Cons xa n have "n \<noteq> [] \<and> last n = a" by simp
      with assms(2) show ?thesis by simp
    next
      case (Cons y ys)
      with pxs have "y = b" by simp
      with Cons \<open>n2 = x # xs\<close> xa n have "n = n1 @ [a, b] @ ys" by simp
      then have "sublist [a, b] n" unfolding sublist_def by blast
      with assms(1) show ?thesis by simp
    qed
  qed
  then show ?thesis unfolding sublist_append by blast
qed

lemma set_str_nat: "set (str_nat n) \<subseteq> {48..57}"
proof (induction n rule: str_nat.induct)
  case (1 n)
  show ?case
  proof (cases "n < 10")
    case True
    then show ?thesis by (subst str_nat.simps) auto
  next
    case False
    have "n mod 10 < 10" by simp
    then have "48 + n mod 10 \<in> {48..57}" by auto
    with 1 False show ?thesis by (subst str_nat.simps) auto
  qed
qed

lemma set_str_int: "set (str_int i) \<subseteq> insert 45 {48..57}"
  using set_str_nat by (auto simp: str_int_def)

lemma no_word_in_str_int:
  assumes "x \<in> set n" "x \<noteq> 45" "x < 48 \<or> 57 < x"
  shows "\<not> sublist n (str_int i)"
proof
  assume "sublist n (str_int i)"
  then have "set n \<subseteq> set (str_int i)" by (rule set_mono_sublist)
  with assms(1) set_str_int[of i] have "x \<in> insert 45 {48..57}" by blast
  with assms show False by auto
qed

lemma retired_str_int: "\<not> sublist (S ''Retired'') (str_int i)"
  by (rule no_word_in_str_int[of 82]) (simp_all add: S_def)

lemma left_join_str_int: "\<not> sublist (S ''left Brighton to join'') (str_int i)"
  by (rule no_word_in_str_int[of 108]) (simp_all add: S_def)


lemmas word_simps = S_def sublist_field_sep sublist_field_sep2 sublist_code

lemma retired_not_in_tier_1:
  assumes "\<forall>f \<in> set (other_fields p). \<not> sublist (S ''Retired'') f"
  shows "\<forall>c \<in> fst ` set (nonblank (tier_1 years_of p)). \<not> sublist (S ''Retired'') c"
  using assms retired_str_int[of "spells p"]
  by (auto simp add: nonblank_tier_1 other_fields_def word_simps)

lemma left_join_not_in_tier_1:
  assumes "\<forall>f \<in> set (other_fields p). \<not> sublist (S ''left Brighton to join'') f"
  shows "\<forall>c \<in> fst ` set (nonblank (tier_1 years_of p)). \<not> sublist (S ''left Brighton to join'') c"
  using assms left_join_str_int[of "spells p"]
  by (auto simp add: nonblank_tier_1 other_fields_def word_simps)

lemma retired_not_in_position:
  assumes "\<forall>f \<in> set (other_fields p). \<not> sublist (S ''Retired'') f"
  shows "\<not> sublist (S ''Retired'') (S ''This player is a '' @ position p @ S ''.'')"
  using assms
  by (auto simp add: other_fields_def word_simps)

lemma left_join_not_in_position:
  assumes "\<forall>f \<in> set (other_fields p). \<not> sublist (S ''left Brighton to join'') f"
  shows "\<not> sublist (S ''left Brighton to join'') (S ''This player is a '' @ position p @ S ''.'')"
  using assms
  by (auto simp add: other_fields_def word_simps)

lemma permutes_set: "permutes shuffle \<Longrightarrow> set (fst (shuffle g xs)) = set xs"
  unfolding permutes_def by (metis set_mset_mset)

lemma mset_rotate: "mset (rotate n xs) = mset xs"
proof -
  have "mset (drop k xs @ take k xs) = mset xs" for k
    by (metis append_take_drop_id mset_append add.commute)
  then show ?thesis by (simp only: rotate_drop_take)
qed

lemma permutes_rotate_shuffle: "permutes rotate_shuffle"
  by (simp add: permutes_def rotate_shuffle_def mset_rotate)

lemma set_clue_defs:
  assumes "permutes shuffle"
  shows "set (clue_defs years_of shuffle p g)
         = set (nonblank (tier_1 years_of p)) \<union> set (nonblank (tier_2 p)) \<union> set (nonblank (tier_3 p))"
proof -
  obtain t1 g1 where s1: "shuffle g (nonblank (tier_1 years_of p)) = (t1, g1)" by force
  obtain t2 g2 where s2: "shuffle g1 (nonblank (tier_2 p)) = (t2, g2)" by force
  obtain t3 g3 where s3: "shuffle g2 (nonblank (tier_3 p)) = (t3, g3)" by force
  have "set t1 = set (nonblank (tier_1 years_of p))"
    using permutes_set[OF assms, of g "nonblank (tier_1 years_of p)"] s1 by simp
  moreover have "set t2 = set (nonblank (tier_2 p))"
    using permutes_set[OF assms, of g1 "nonblank (tier_2 p)"] s2 by simp
  moreover have "set t3 = set (nonblank (tier_3 p))"
    using permutes_set[OF assms, of g2 "nonblank (tier_3 p)"] s3 by simp
  ultimately show ?thesis
    by (auto simp: clue_defs_def s1 s2 s3)
qed

lemma keep_clues_append:
  "keep_clues (xs @ ys) used
   = keep_clues xs used @ keep_clues ys (used \<union> \<Union>(snd ` set (keep_clues xs used)))"
proof (induction xs used rule: keep_clues.induct)
  case (1 used)
  then show ?case by simp
next
  case (2 c tags rest used)
  show ?case
  proof (cases "tags \<inter> used = {}")
    case True
    have "used \<union> tags \<union> \<Union>(snd ` set (keep_clues rest (used \<union> tags)))
          = used \<union> (tags \<union> \<Union>(snd ` set (keep_clues rest (used \<union> tags))))" by blast
    with "2.IH"(1)[OF True] True show ?thesis by simp
  next
    case False
    with "2.IH"(2)[OF False] show ?thesis by simp
  qed
qed

lemma clue_defs_tiers:
  assumes "permutes shuffle"
  obtains t1 t2 t3 where "clue_defs years_of shuffle p g = t1 @ t2 @ t3"
    and "set t1 = set (nonblank (tier_1 years_of p))"
    and "set t2 = set (nonblank (tier_2 p))"
    and "set t3 = set (nonblank (tier_3 p))"
proof -
  obtain t1 g1 where s1: "shuffle g (nonblank (tier_1 years_of p)) = (t1, g1)" by force
  obtain t2 g2 where s2: "shuffle g1 (nonblank (tier_2 p)) = (t2, g2)" by force
  obtain t3 g3 where s3: "shuffle g2 (nonblank (tier_3 p)) = (t3, g3)" by force
  have "set t1 = set (nonblank (tier_1 years_of p))"
    using permutes_set[OF assms, of g "nonblank (tier_1 years_of p)"] s1 by simp
  moreover have "set t2 = set (nonblank (tier_2 p))"
    using permutes_set[OF assms, of g1 "nonblank (tier_2 p)"] s2 by simp
  moreover have "set t3 = set (nonblank (tier_3 p))"
    using permutes_set[OF assms, of g2 "nonblank (tier_3 p)"] s3 by simp
  moreover have "clue_defs years_of shuffle p g = t1 @ t2 @ t3"
    by (simp add: clue_defs_def s1 s2 s3)
  ultimately show ?thesis using that by blast
qed

lemma born_in_tier_1:
  "(S ''This player was born in '' @ place_of_birth p @ S '', '' @ country_of_birth p
      @ S '' and has '' @ str_int (spells p) @ S '' spell(s) at Brighton.'', {Birth, Spells})
   \<in> set (nonblank (tier_1 years_of p))"
  by (simp add: nonblank_tier_1)

lemma tier_1_birth_unique:
  assumes "x \<in> set (nonblank (tier_1 years_of p))" and "snd x \<inter> {Birth, Spells} \<noteq> {}"
  shows "x = (S ''This player was born in '' @ place_of_birth p @ S '', '' @ country_of_birth p
      @ S '' and has '' @ str_int (spells p) @ S '' spell(s) at Brighton.'', {Birth, Spells})"
proof -
  from assms(1) have "x = (S ''This player was born in '' @ place_of_birth p @ S '', '' @ country_of_birth p
          @ S '' and has '' @ str_int (spells p) @ S '' spell(s) at Brighton.'', {Birth, Spells})
    \<or> x = (S ''Seasons at Brighton: '' @ seasons p, {Seasons})
    \<or> x = (S ''Seasons at Brighton during second spell: '' @ seasons2 p, {Seasons2})"
    unfolding nonblank_tier_1 by (simp split: if_splits) (elim disjE conjE, simp_all)
  with assms(2) show ?thesis by (elim disjE) simp_all
qed

lemma kept_clue_origin:
  assumes "permutes shuffle" and "(c, t) \<in> set (build_clues_tagged years_of shuffle p g)"
  shows "(c, t) \<in> set (nonblank (tier_1 years_of p))
       \<or> (c, t) \<in> set (nonblank (tier_2 p))
       \<or> ((c, t) \<in> set (nonblank (tier_3 p)) \<and> Birth \<notin> t)"
proof -
  from clue_defs_tiers[OF assms(1), of years_of p g] obtain t1 t2 t3 where
    d: "clue_defs years_of shuffle p g = t1 @ t2 @ t3"
    and s1: "set t1 = set (nonblank (tier_1 years_of p))"
    and s2: "set t2 = set (nonblank (tier_2 p))"
    and s3: "set t3 = set (nonblank (tier_3 p))" by blast
  let ?b = "(S ''This player was born in '' @ place_of_birth p @ S '', '' @ country_of_birth p
      @ S '' and has '' @ str_int (spells p) @ S '' spell(s) at Brighton.'', {Birth, Spells})"
  let ?K1 = "keep_clues t1 {}"
  let ?U = "\<Union>(snd ` set ?K1)"
  have b1: "?b \<in> set t1" unfolding s1 by (rule born_in_tier_1)
  have "\<forall>x \<in> set t1. snd x \<inter> {Birth, Spells} \<noteq> {} \<longrightarrow> x = ?b"
    unfolding s1 using tier_1_birth_unique by blast
  with keep_clues_keeps[of _ "{Birth, Spells}" t1 "{}"] b1 have "?b \<in> set ?K1" by blast
  then have "snd ?b \<subseteq> ?U" by blast
  then have birth: "Birth \<in> ?U" by simp
  from assms(2) have "(c, t) \<in> set ?K1 \<or> (c, t) \<in> set (keep_clues (t2 @ t3) ?U)"
    unfolding build_clues_tagged_def d keep_clues_append[of t1 "t2 @ t3" "{}"] by simp
  then show ?thesis
  proof
    assume "(c, t) \<in> set ?K1"
    with keep_clues_subset[of t1 "{}"] s1 show ?thesis by blast
  next
    assume k: "(c, t) \<in> set (keep_clues (t2 @ t3) ?U)"
    from keep_clues_unused[OF k] birth have nb: "Birth \<notin> t" by blast
    from k keep_clues_subset[of "t2 @ t3" ?U] have "(c, t) \<in> set t2 \<or> (c, t) \<in> set t3" by auto
    with nb s2 s3 show ?thesis by blast
  qed
qed

lemma position_clue_only:
  assumes "(c, t) \<in> set (nonblank (tier_3 p))" and "Birth \<notin> t"
  shows "c = S ''This player is a '' @ position p @ S ''.''"
proof -
  from assms(1) have "(c, t) = (S ''This player is a '' @ position p @ S ''.'', {Position})
    \<or> (c, t) = (S ''This player was born on '' @ date_of_birth p @ S '', in '' @ place_of_birth p
          @ S '', '' @ country_of_birth p @ S ''.'', {Birth})"
    unfolding nonblank_tier_3 by simp
  with assms(2) show ?thesis by (elim disjE) simp_all
qed

lemma retired_left_for_clue: "sublist (S ''Retired'') (left_for p) \<Longrightarrow> left_for_clue p = []"
  by (simp add: left_for_clue_def)

lemma retired_not_in_tier_2:
  assumes "sublist (S ''Retired'') (left_for p)"
    and "\<forall>f \<in> set (other_fields p). \<not> sublist (S ''Retired'') f"
  shows "\<forall>c \<in> fst ` set (nonblank (tier_2 p)). \<not> sublist (S ''Retired'') c"
  using assms(2) retired_str_int[of "appearances p"] retired_str_int[of "goals p"]
  by (auto simp add: nonblank_tier_2 retired_left_for_clue[OF assms(1)] strip_Nil goals_clue_def
        other_fields_def word_simps)

lemma left_join_not_in_tier_2:
  assumes "sublist (S ''Retired'') (left_for p)"
    and "\<forall>f \<in> set (other_fields p). \<not> sublist (S ''left Brighton to join'') f"
  shows "\<forall>c \<in> fst ` set (nonblank (tier_2 p)). \<not> sublist (S ''left Brighton to join'') c"
  using assms(2) left_join_str_int[of "appearances p"] left_join_str_int[of "goals p"]
  by (auto simp add: nonblank_tier_2 retired_left_for_clue[OF assms(1)] strip_Nil goals_clue_def
        other_fields_def word_simps)

text \<open>
  Claim C7, amended.  For every player record whose \<open>left_for\<close> contains \<open>Retired\<close> and whose
  place and country of birth, position, seasons of both spells and previous club contain
  neither \<open>left Brighton to join\<close> nor \<open>Retired\<close>, and for every generator, no clue returned
  by \<open>build_clues\<close> contains \<open>left Brighton to join\<close> or \<open>Retired\<close>: the clue of \<open>left_for\<close> is
  left out.  The date of birth is free.
\<close>

theorem retired_left_for_suppressed:
  assumes "permutes shuffle" and "sublist (S ''Retired'') (left_for p)"
    and "\<forall>f \<in> set (other_fields p).
           \<not> sublist (S ''left Brighton to join'') f \<and> \<not> sublist (S ''Retired'') f"
  shows "\<forall>c \<in> set (build_clues years_of shuffle p g).
           \<not> sublist (S ''left Brighton to join'') c \<and> \<not> sublist (S ''Retired'') c"
proof
  fix c assume "c \<in> set (build_clues years_of shuffle p g)"
  then obtain t where "(c, t) \<in> set (build_clues_tagged years_of shuffle p g)"
    unfolding build_clues_def by auto
  from kept_clue_origin[OF assms(1) this]
  have c: "c \<in> fst ` set (nonblank (tier_1 years_of p)) \<or> c \<in> fst ` set (nonblank (tier_2 p))
           \<or> c = S ''This player is a '' @ position p @ S ''.''"
    using position_clue_only[of c t p] by force
  from assms(3) have r: "\<forall>f \<in> set (other_fields p). \<not> sublist (S ''Retired'') f"
    and l: "\<forall>f \<in> set (other_fields p). \<not> sublist (S ''left Brighton to join'') f" by blast+
  from c retired_not_in_tier_1[OF r, of years_of] retired_not_in_tier_2[OF assms(2) r]
    retired_not_in_position[OF r]
  have "\<not> sublist (S ''Retired'') c" by blast
  moreover from c left_join_not_in_tier_1[OF l, of years_of] left_join_not_in_tier_2[OF assms(2) l]
    left_join_not_in_position[OF l]
  have "\<not> sublist (S ''left Brighton to join'') c" by blast
  ultimately show "\<not> sublist (S ''left Brighton to join'') c \<and> \<not> sublist (S ''Retired'') c" by simp
qed

theorem retired_left_for_suppressed_witness:
  "permutes rotate_shuffle \<and> sublist (S ''Retired'') (left_for bruno) \<and>
   list_all (\<lambda>f. \<not> sublist (S ''left Brighton to join'') f \<and> \<not> sublist (S ''Retired'') f)
     (other_fields bruno) \<and>
   list_all (\<lambda>c. \<not> sublist (S ''left Brighton to join'') c \<and> \<not> sublist (S ''Retired'') c)
     (build_clues find_years rotate_shuffle bruno 0)"
proof -
  have h2: "sublist (S ''Retired'') (left_for bruno)"
    by (simp add: bruno_def S_def)
  have h3: "\<forall>f \<in> set (other_fields bruno).
       \<not> sublist (S ''left Brighton to join'') f \<and> \<not> sublist (S ''Retired'') f"
    by (simp add: bruno_def other_fields_def S_def sublist_code)
  from retired_left_for_suppressed[OF permutes_rotate_shuffle h2 h3, of find_years 0]
    permutes_rotate_shuffle h2 h3
  show ?thesis unfolding list_all_iff by blast
qed

text \<open>
  Claim C7 as stated fails: only the clue of \<open>left_for\<close> is left out, and the word can come
  from another column.  For the record \<open>veteran\<close> the fourth clue is the clue of the
  previous club, which has the word \<open>Retired\<close>.
\<close>

theorem retired_word_counterexample:
  "sublist (S ''Retired'') (left_for veteran) \<and>
   3 < length (build_clues find_years rotate_shuffle veteran 0) \<and>
   build_clues find_years rotate_shuffle veteran 0 ! 3
     = S ''This player joined Brighton from Retired (returned as cover)'' \<and>
   sublist (S ''Retired'') (build_clues find_years rotate_shuffle veteran 0 ! 3)"
  by (simp add: clue_eval veteran_def)

lemma tier_1_tags:
  assumes "(c, t) \<in> set (nonblank (tier_1 years_of p))"
  shows "(t = {Seasons} \<and> c = S ''Seasons at Brighton: '' @ seasons p)
       \<or> t = {Birth, Spells} \<or> t = {Seasons2}"
proof -
  from assms have "(c, t) = (S ''This player was born in '' @ place_of_birth p @ S '', '' @ country_of_birth p
          @ S '' and has '' @ str_int (spells p) @ S '' spell(s) at Brighton.'', {Birth, Spells})
    \<or> (c, t) = (S ''Seasons at Brighton: '' @ seasons p, {Seasons})
    \<or> (c, t) = (S ''Seasons at Brighton during second spell: '' @ seasons2 p, {Seasons2})"
    unfolding nonblank_tier_1 by (simp split: if_splits) (elim disjE conjE, simp_all)
  then show ?thesis by (elim disjE) simp_all
qed

lemma tier_2_tags:
  assumes "(c, t) \<in> set (nonblank (tier_2 p))"
  shows "(t = {Left_for} \<and> c = left_for_clue p)
       \<or> t = {Appearances} \<or> t = {Goals} \<or> t = {Joined_from}"
proof -
  from assms have "(c, t) = (S ''This player made '' @ str_int (appearances p) @ S '' league appearances for Brighton.'', {Appearances})
    \<or> (c, t) = (goals_clue p, {Goals})
    \<or> (c, t) = (S ''This player joined Brighton from '' @ joined_from p, {Joined_from})
    \<or> (c, t) = (left_for_clue p, {Left_for})"
    unfolding nonblank_tier_2 by (simp split: if_splits) (elim disjE conjE, simp_all)
  then show ?thesis by (elim disjE) simp_all
qed

lemma tier_3_tags:
  assumes "(c, t) \<in> set (nonblank (tier_3 p))"
  shows "t = {Position} \<or> t = {Birth}"
proof -
  from assms have "(c, t) = (S ''This player is a '' @ position p @ S ''.'', {Position})
    \<or> (c, t) = (S ''This player was born on '' @ date_of_birth p @ S '', in '' @ place_of_birth p
          @ S '', '' @ country_of_birth p @ S ''.'', {Birth})"
    unfolding nonblank_tier_3 by simp
  then show ?thesis by (elim disjE) simp_all
qed

lemma still_at_club_left_for_clue:
  "left_for p = S ''Still at club'' \<Longrightarrow> left_for_clue p = S ''This player is still at the club.''"
  by (simp add: left_for_clue_def S_def sublist_code strip_def strip_where_def isspace_def)

lemma strip_still: "strip (S ''This player is still at the club.'') \<noteq> []"
  using strip_S_append[of "CHR ''T''" "''his player is still at the club.''" "[]"]
  by (simp add: isspace_def)


lemma clue_defs_tags:
  assumes "permutes shuffle" "(c, t) \<in> set (clue_defs years_of shuffle p g)"
  shows "(t = {Seasons} \<and> c = S ''Seasons at Brighton: '' @ seasons p)
       \<or> (t = {Left_for} \<and> c = left_for_clue p)
       \<or> t = {Birth, Spells} \<or> t = {Seasons2} \<or> t = {Appearances} \<or> t = {Goals}
       \<or> t = {Joined_from} \<or> t = {Position} \<or> t = {Birth}"
proof -
  from assms(2) have "(c, t) \<in> set (nonblank (tier_1 years_of p))
      \<or> (c, t) \<in> set (nonblank (tier_2 p)) \<or> (c, t) \<in> set (nonblank (tier_3 p))"
    unfolding set_clue_defs[OF assms(1)] by simp
  then show ?thesis
  proof (elim disjE)
    assume "(c, t) \<in> set (nonblank (tier_1 years_of p))"
    from tier_1_tags[OF this] show ?thesis by (elim disjE conjE) simp_all
  next
    assume "(c, t) \<in> set (nonblank (tier_2 p))"
    from tier_2_tags[OF this] show ?thesis by (elim disjE conjE) simp_all
  next
    assume "(c, t) \<in> set (nonblank (tier_3 p))"
    from tier_3_tags[OF this] show ?thesis by (elim disjE conjE) simp_all
  qed
qed

lemma unique_tag_kept:
  assumes "permutes shuffle" "(c, {f}) \<in> set (clue_defs years_of shuffle p g)"
    and "f = Seasons \<or> f = Left_for"
  shows "c \<in> set (build_clues years_of shuffle p g)"
proof -
  have "x = (c, {f})"
    if memx: "x \<in> set (clue_defs years_of shuffle p g)" and meetx: "snd x \<inter> {f} \<noteq> {}" for x
  proof -
    obtain c' t' where x: "x = (c', t')" by (cases x)
    from memx meetx x have mem: "(c', t') \<in> set (clue_defs years_of shuffle p g)"
      and meet: "t' \<inter> {f} \<noteq> {}" by simp_all
    from meet have ft: "f \<in> t'" by auto
    from clue_defs_tags[OF assms(1) assms(2)] assms(3)
    have c: "(f = Seasons \<and> c = S ''Seasons at Brighton: '' @ seasons p)
           \<or> (f = Left_for \<and> c = left_for_clue p)"
      by (elim disjE conjE) simp_all
    from clue_defs_tags[OF assms(1) mem] ft assms(3)
    have "(t' = {Seasons} \<and> f = Seasons \<and> c' = S ''Seasons at Brighton: '' @ seasons p)
        \<or> (t' = {Left_for} \<and> f = Left_for \<and> c' = left_for_clue p)"
      by (elim disjE conjE) simp_all
    with c x show ?thesis by (elim disjE conjE) simp_all
  qed
  then have "\<forall>x \<in> set (clue_defs years_of shuffle p g). snd x \<inter> {f} \<noteq> {} \<longrightarrow> x = (c, {f})"
    by blast
  with keep_clues_keeps[of c "{f}" "clue_defs years_of shuffle p g" "{}"] assms(2)
  have "(c, {f}) \<in> set (build_clues_tagged years_of shuffle p g)"
    unfolding build_clues_tagged_def by blast
  then show ?thesis unfolding build_clues_def by force
qed

lemma no_era_tag:
  assumes "permutes shuffle" "(c, t) \<in> set (build_clues_tagged years_of shuffle p g)"
  shows "Era \<notin> t"
proof -
  from assms(2) keep_clues_subset[of "clue_defs years_of shuffle p g" "{}"]
  have "(c, t) \<in> set (clue_defs years_of shuffle p g)"
    unfolding build_clues_tagged_def by blast
  from clue_defs_tags[OF assms(1) this] show ?thesis by (elim disjE conjE) simp_all
qed

text \<open>
  Claim C6.  For a record with \<open>left_for\<close> equal to \<open>Still at club\<close> and first-spell seasons
  \<open>2010\<close>--\<open>2024\<close>, and for every generator, the list returned by \<open>build_clues\<close> has the
  clue \<open>Seasons at Brighton: 2010\<close>--\<open>2024\<close> and no clue tagged \<open>Era\<close>.  The third part of
  the claim does not hold of the program: the list always has the clue
  \<open>This player is still at the club.\<close>, which the test
  \<open>test_still_at_club_suppressed_when_seasons_open_ended\<close> forbids.
\<close>

theorem still_at_club_clue_kept:
  assumes "permutes shuffle" and "left_for p = S ''Still at club''"
    and "seasons p = S ''2010'' @ [8211] @ S ''2024''"
  shows "S ''Seasons at Brighton: '' @ S ''2010'' @ [8211] @ S ''2024''
           \<in> set (build_clues years_of shuffle p g)
         \<and> (\<forall>(c, t) \<in> set (build_clues_tagged years_of shuffle p g). Era \<notin> t)
         \<and> S ''This player is still at the club.'' \<in> set (build_clues years_of shuffle p g)"
proof -
  from assms(3) have ne: "seasons p \<noteq> []" by (simp add: S_def)
  have "(S ''Seasons at Brighton: '' @ seasons p, {Seasons}) \<in> set (clue_defs years_of shuffle p g)"
    unfolding set_clue_defs[OF assms(1)] using ne by (simp add: nonblank_tier_1)
  from unique_tag_kept[OF assms(1) this] assms(3)
  have a: "S ''Seasons at Brighton: '' @ S ''2010'' @ [8211] @ S ''2024''
           \<in> set (build_clues years_of shuffle p g)" by simp
  have "(left_for_clue p, {Left_for}) \<in> set (clue_defs years_of shuffle p g)"
    unfolding set_clue_defs[OF assms(1)]
    by (simp add: nonblank_tier_2 still_at_club_left_for_clue[OF assms(2)] strip_still)
  from unique_tag_kept[OF assms(1) this] still_at_club_left_for_clue[OF assms(2)]
  have b: "S ''This player is still at the club.'' \<in> set (build_clues years_of shuffle p g)"
    by simp
  from a b no_era_tag[OF assms(1)] show ?thesis by blast
qed

theorem still_at_club_clue_kept_witness:
  "permutes rotate_shuffle \<and> left_for dunk = S ''Still at club''
   \<and> seasons dunk = S ''2010'' @ [8211] @ S ''2024''
   \<and> S ''Seasons at Brighton: '' @ S ''2010'' @ [8211] @ S ''2024''
           \<in> set (build_clues find_years rotate_shuffle dunk 0)
   \<and> list_all (\<lambda>(c, t). Era \<notin> t) (build_clues_tagged find_years rotate_shuffle dunk 0)
   \<and> S ''This player is still at the club.'' \<in> set (build_clues find_years rotate_shuffle dunk 0)"
proof -
  have h2: "left_for dunk = S ''Still at club''" by (simp add: dunk_def)
  have h3: "seasons dunk = S ''2010'' @ [8211] @ S ''2024''" by (simp add: dunk_def)
  from still_at_club_clue_kept[OF permutes_rotate_shuffle h2 h3, of find_years 0]
    permutes_rotate_shuffle h2 h3
  show ?thesis unfolding list_all_iff by blast
qed

section \<open>Properties of the history and of the daily selection\<close>

lemma all_indices_lt: "idx \<in> set (all_indices players) \<Longrightarrow> idx < length players"
  by (simp add: all_indices_def)

lemma iloc_nat: "idx < length players \<Longrightarrow> iloc players (int idx) = Inr (idx, players ! idx)"
  by (simp add: iloc_def)

lemma update_absent: "map_of h k = None \<Longrightarrow> AList.update k v h = h @ [(k, v)]"
  by (induction h) (auto split: if_splits)

text \<open>
  Claim C9, amended.  When the file does not exist, or \<open>json.load\<close> rejects its content
  with \<open>JSONDecodeError\<close>, \<open>load_recent_players\<close> returns the empty mapping and raises
  nothing.
\<close>

theorem load_fails_soft:
  "f = Missing \<or> f = JsonError \<Longrightarrow> load_recent_players f = Inr []"
  by (auto simp: load_recent_players_def)

theorem load_fails_soft_witness:
  "(Missing = Missing \<or> Missing = JsonError) \<and> load_recent_players Missing = Inr []
   \<and> (JsonError = Missing \<or> JsonError = JsonError) \<and> load_recent_players JsonError = Inr []"
  using load_fails_soft[of Missing] load_fails_soft[of JsonError] by simp

text \<open>
  Claim C9 as stated fails: only \<open>FileNotFoundError\<close> and \<open>JSONDecodeError\<close> are caught.
  A file that holds valid JSON other than an object, such as \<open>[]\<close>, makes \<open>data.items()\<close>
  raise \<open>AttributeError\<close>; an object with a key that is no ISO date makes
  \<open>fromisoformat\<close> raise \<open>ValueError\<close>; bytes that are not text raise
  \<open>UnicodeDecodeError\<close> and nesting beyond the recursion limit raises \<open>RecursionError\<close>.
  Each reaches the caller.
\<close>

theorem load_non_object_counterexample:
  "load_recent_players (Json JNonObject) = Inl AttributeError
   \<and> load_recent_players (Json (JObject [(NotIso, 3)])) = Inl ValueError
   \<and> load_recent_players Undecodable = Inl UnicodeDecodeError
   \<and> load_recent_players TooDeep = Inl RecursionError"
  by (simp add: load_recent_players_def)

text \<open>
  Claim C4, amended.  In production mode, when the date has no entry in the pruned
  history and no player has a league appearance, \<open>get_daily_player\<close> fails with the
  \<open>IndexError\<close> that \<open>rng.choice\<close> raises on the empty list, and the file is left as it was.
\<close>

theorem empty_pool_index_error:
  assumes "override debug current_player_index = None"
    and "load_recent_players f = Inr loaded"
    and "30 < today"
    and "map_of (prune (today - 30) loaded) (Datetime today 0) = None"
    and "all_indices players = []"
  shows "get_daily_player randbelow players debug current_player_index today f = (Inl IndexError, f)"
  using assms(2-5) unfolding get_daily_player_def assms(1)
  by (simp add: choice_def)

lemmas daily_eval = get_daily_player_def override_def load_recent_players_def prune_def choice_def
  all_indices_def iloc_def year_yday_def save_recent_players_def randbelow_mod_def

theorem empty_pool_index_error_witness:
  "override False None = None \<and> load_recent_players Missing = Inr []
   \<and> (30::int) < 739924 \<and> map_of (prune (739924 - 30) []) (Datetime 739924 0) = None
   \<and> all_indices [trialist] = []
   \<and> get_daily_player randbelow_mod [trialist] False None 739924 Missing = (Inl IndexError, Missing)"
proof -
  have h1: "override False None = None" by (simp add: override_def)
  have h2: "load_recent_players Missing = Inr []" by (simp add: load_recent_players_def)
  have h3: "(30::int) < 739924" by simp
  have h4: "map_of (prune (739924 - 30) []) (Datetime 739924 0) = None" by (simp add: prune_def)
  have h5: "all_indices [trialist] = []" by (simp add: all_indices_def trialist_def)
  from empty_pool_index_error[OF h1 h2 h3 h4 h5, of randbelow_mod] h1 h2 h4 h5
  show ?thesis by simp
qed

text \<open>
  Claim C4 as stated fails: the program has no error of its own for the empty pool.  The
  exception is the \<open>IndexError\<close> that also comes out of a catalogue with an eligible player
  when the entry of the day holds an index outside the catalogue.
\<close>

theorem empty_pool_error_counterexample:
  "get_daily_player randbelow_mod [trialist] False None 739924 Missing = (Inl IndexError, Missing)
   \<and> all_indices [dunk] = [0]
   \<and> fst (get_daily_player randbelow_mod [dunk] False None 739924
           (Json (JObject [(Iso (Datetime 739924 0), 7)]))) = Inl IndexError"
  by (simp add: daily_eval trialist_def dunk_def)

lemma all_indices_eligible: "idx \<in> set (all_indices players) \<Longrightarrow> 0 < appearances (players ! idx)"
  by (simp add: all_indices_def)

lemma load_items_distinct:
  "load_items items acc = Inr h \<Longrightarrow> distinct (map fst acc) \<Longrightarrow> distinct (map fst h)"
proof (induction items acc rule: load_items.induct)
  case (1 recent_players)
  then show ?case by simp
next
  case (2 d player_id rest recent_players)
  then show ?case by (simp add: distinct_update)
next
  case (3 player_id rest recent_players)
  then show ?case by simp
qed

lemma load_distinct: "load_recent_players f = Inr h \<Longrightarrow> distinct (map fst h)"
proof (cases f)
  case (Json doc)
  assume l: "load_recent_players f = Inr h"
  show ?thesis
  proof (cases doc)
    case (JObject items)
    with Json l have "load_items items [] = Inr h" by (simp add: load_recent_players_def)
    from load_items_distinct[OF this] show ?thesis by simp
  next
    case JNonObject
    with Json l show ?thesis by (simp add: load_recent_players_def)
  qed
qed (auto simp: load_recent_players_def)

lemma load_items_saved:
  "distinct (map fst (acc @ h)) \<Longrightarrow>
   load_items (map (\<lambda>(d, player_id). (Iso d, player_id)) h) acc = Inr (acc @ h)"
proof (induction h arbitrary: acc)
  case Nil
  then show ?case by simp
next
  case (Cons x h)
  obtain d v where x: "x = (d, v)" by (cases x)
  from Cons.prems x have "d \<notin> fst ` set acc" by auto
  then have "map_of acc d = None" by (simp add: map_of_eq_None_iff)
  then have u: "AList.update d v acc = acc @ [(d, v)]" by (rule update_absent)
  from Cons.prems x have "distinct (map fst ((acc @ [(d, v)]) @ h))" by simp
  from Cons.IH[OF this] u x show ?case by simp
qed

lemma load_save: "distinct (map fst h) \<Longrightarrow> load_recent_players (save_recent_players h) = Inr h"
  using load_items_saved[of "[]" h] by (simp add: load_recent_players_def save_recent_players_def)

lemma prune_distinct: "distinct (map fst h) \<Longrightarrow> distinct (map fst (prune c h))"
  by (simp add: prune_def distinct_map_filter)

text \<open>
  Claim C5.  In production mode, when the date has no entry, the eligible pool is not
  empty and every eligible index occurs among the values of the pruned history,
  \<open>get_daily_player\<close> succeeds: it draws from the whole eligible pool, so the player has a
  league appearance, and the file written loads as the pruned history, unchanged, followed
  by the new entry.
\<close>

theorem pool_exhausted_fallback:
  assumes "override debug current_player_index = None"
    and "randbelow_ok randbelow"
    and "load_recent_players f = Inr loaded"
    and "30 < today"
    and "map_of (prune (today - 30) loaded) (Datetime today 0) = None"
    and "all_indices players \<noteq> []"
    and "\<forall>idx \<in> set (all_indices players). int idx \<in> snd ` set (prune (today - 30) loaded)"
  shows "\<exists>idx \<in> set (all_indices players).
           idx = all_indices players
                  ! randbelow (fst (year_yday today) * 1000 + snd (year_yday today))
                      (length (all_indices players))
         \<and> 0 < appearances (players ! idx)
         \<and> get_daily_player randbelow players debug current_player_index today f
           = (Inr (idx, players ! idx),
              save_recent_players (prune (today - 30) loaded @ [(Datetime today 0, int idx)]))
         \<and> load_recent_players
              (snd (get_daily_player randbelow players debug current_player_index today f))
           = Inr (prune (today - 30) loaded @ [(Datetime today 0, int idx)])"
proof -
  let ?all = "all_indices players"
  let ?seed = "fst (year_yday today) * 1000 + snd (year_yday today)"
  let ?i = "randbelow ?seed (length ?all)"
  let ?new = "prune (today - 30) loaded @ [(Datetime today 0, int (?all ! ?i))]"
  from assms(2,6) have i: "?i < length ?all" by (simp add: randbelow_ok_def)
  then have mem: "?all ! ?i \<in> set ?all" by simp
  from assms(7) have none: "filter (\<lambda>idx. int idx \<notin> snd ` set (prune (today - 30) loaded)) ?all = []"
    by (simp add: filter_empty_conv)
  have ch: "choice randbelow ?seed ?all = Inr (?all ! ?i)"
    using assms(6) i by (simp add: choice_def)
  have g: "get_daily_player randbelow players debug current_player_index today f
           = (Inr (?all ! ?i, players ! (?all ! ?i)), save_recent_players ?new)"
    using assms(3,4,5) none ch iloc_nat[OF all_indices_lt[OF mem]] update_absent[OF assms(5)]
    unfolding get_daily_player_def assms(1)
    by (simp add: Let_def)
  from assms(5) have "Datetime today 0 \<notin> fst ` set (prune (today - 30) loaded)"
    by (simp add: map_of_eq_None_iff)
  with prune_distinct[OF load_distinct[OF assms(3)], of "today - 30"]
  have "distinct (map fst ?new)" by simp
  then have "load_recent_players (save_recent_players ?new) = Inr ?new" by (rule load_save)
  with g have l: "load_recent_players
        (snd (get_daily_player randbelow players debug current_player_index today f)) = Inr ?new"
    by simp
  from mem g l all_indices_eligible[OF mem] show ?thesis by blast
qed

lemma randbelow_ok_mod: "randbelow_ok randbelow_mod"
  by (auto simp: randbelow_ok_def randbelow_mod_def nat_less_iff)

lemma load_used_up:
  "load_recent_players used_up
   = Inr [(Datetime 739921 0, 2), (Datetime 739922 0, 1), (Datetime 739923 0, 0)]"
  by (simp add: load_recent_players_def used_up_def)

lemma all_indices_squad: "all_indices squad = [0, 1, 2]"
  by (simp add: all_indices_def squad_def dunk_def omahony_def bruno_def upt_rec)

theorem pool_exhausted_fallback_witness:
  "override False None = None \<and> randbelow_ok randbelow_mod
   \<and> load_recent_players used_up
       = Inr [(Datetime 739921 0, 2), (Datetime 739922 0, 1), (Datetime 739923 0, 0)]
   \<and> (30::int) < 739924
   \<and> map_of (prune (739924 - 30) [(Datetime 739921 0, 2), (Datetime 739922 0, 1), (Datetime 739923 0, 0)])
        (Datetime 739924 0) = None
   \<and> all_indices squad \<noteq> []
   \<and> list_all (\<lambda>idx. int idx \<in> snd ` set (prune (739924 - 30)
          [(Datetime 739921 0, 2), (Datetime 739922 0, 1), (Datetime 739923 0, 0)])) (all_indices squad)
   \<and> (\<exists>idx \<in> set (all_indices squad).
         0 < appearances (squad ! idx)
         \<and> get_daily_player randbelow_mod squad False None 739924 used_up
           = (Inr (idx, squad ! idx),
              save_recent_players (prune (739924 - 30)
                [(Datetime 739921 0, 2), (Datetime 739922 0, 1), (Datetime 739923 0, 0)]
                @ [(Datetime 739924 0, int idx)]))
         \<and> load_recent_players (snd (get_daily_player randbelow_mod squad False None 739924 used_up))
           = Inr (prune (739924 - 30)
                [(Datetime 739921 0, 2), (Datetime 739922 0, 1), (Datetime 739923 0, 0)]
                @ [(Datetime 739924 0, int idx)]))"
proof -
  let ?h = "[(Datetime 739921 0, 2), (Datetime 739922 0, 1), (Datetime 739923 0, 0 :: int)]"
  have h1: "override False None = None" by (simp add: override_def)
  have h4: "(30::int) < 739924" by simp
  have h5: "map_of (prune (739924 - 30) ?h) (Datetime 739924 0) = None" by (simp add: prune_def)
  have h6: "all_indices squad \<noteq> []" by (simp add: all_indices_squad)
  have h7: "\<forall>idx \<in> set (all_indices squad). int idx \<in> snd ` set (prune (739924 - 30) ?h)"
    by (simp add: all_indices_squad prune_def)
  from pool_exhausted_fallback[OF h1 randbelow_ok_mod load_used_up h4 h5 h6 h7]
    h1 randbelow_ok_mod load_used_up h4 h5 h6 h7
  show ?thesis unfolding list_all_iff by blast
qed

lemma prune_id: "\<forall>x \<in> set h. c \<le> date_of (fst x) \<Longrightarrow> prune c h = h"
  by (auto simp: prune_def filter_id_conv)

lemma prune_dates: "x \<in> set (prune c h) \<Longrightarrow> c \<le> date_of (fst x)"
  by (auto simp: prune_def)

lemma set_update: "set (AList.update k v h) \<subseteq> insert (k, v) (set h)"
  by (induction h) auto

lemma fresh_selection:
  assumes "get_daily_player randbelow players debug current_player_index today f = (Inr r, f')"
    and "f' \<noteq> f"
  shows "\<exists>loaded idx. override debug current_player_index = None
           \<and> load_recent_players f = Inr loaded \<and> \<not> today - 30 < 1
           \<and> map_of (prune (today - 30) loaded) (Datetime today 0) = None
           \<and> iloc players (int idx) = Inr r
           \<and> f' = save_recent_players (AList.update (Datetime today 0) (int idx) (prune (today - 30) loaded))"
  using assms unfolding get_daily_player_def
  by (auto simp: Let_def split: option.splits sum.splits if_splits)

text \<open>
  Claim C2.  In production mode, when the pruned history has an entry for the date whose
  index is a position of the catalogue, \<open>get_daily_player\<close> returns the row of that index
  and leaves the file as it is.  And when a call returns a row and leaves the file \<open>f'\<close>, a
  second call for the same date on \<open>f'\<close> returns the same row and leaves \<open>f'\<close>.
\<close>

theorem daily_selection_idempotent:
  "(override debug current_player_index = None \<and> load_recent_players f = Inr loaded \<and> 30 < today
      \<and> map_of (prune (today - 30) loaded) (Datetime today 0) = Some v
      \<and> 0 \<le> v \<and> v < int (length players)
    \<longrightarrow> get_daily_player randbelow players debug current_player_index today f
          = (Inr (nat v, players ! nat v), f))
   \<and> (get_daily_player randbelow players debug current_player_index today f = (Inr r, f')
    \<longrightarrow> get_daily_player randbelow players debug current_player_index today f' = (Inr r, f'))"
proof (intro conjI impI)
  assume a: "override debug current_player_index = None \<and> load_recent_players f = Inr loaded \<and> 30 < today
      \<and> map_of (prune (today - 30) loaded) (Datetime today 0) = Some v
      \<and> 0 \<le> v \<and> v < int (length players)"
  then have p: "override debug current_player_index = None" by simp
  from a show "get_daily_player randbelow players debug current_player_index today f
          = (Inr (nat v, players ! nat v), f)"
    unfolding get_daily_player_def p by (simp add: iloc_def)
next
  assume a: "get_daily_player randbelow players debug current_player_index today f = (Inr r, f')"
  show "get_daily_player randbelow players debug current_player_index today f' = (Inr r, f')"
  proof (cases "f' = f")
    case True
    with a show ?thesis by simp
  next
    case False
    let ?key = "Datetime today 0"
    from fresh_selection[OF a False] obtain loaded idx where
      p: "override debug current_player_index = None"
      and l: "load_recent_players f = Inr loaded" and t: "\<not> today - 30 < 1"
      and r: "iloc players (int idx) = Inr r"
      and f': "f' = save_recent_players (AList.update ?key (int idx) (prune (today - 30) loaded))"
      by blast
    let ?h = "AList.update ?key (int idx) (prune (today - 30) loaded)"
    have "distinct (map fst ?h)"
      using load_distinct[OF l] by (simp add: prune_distinct distinct_update)
    then have l': "load_recent_players f' = Inr ?h" unfolding f' by (rule load_save)
    have "\<forall>x \<in> set ?h. today - 30 \<le> date_of (fst x)"
      using set_update[of ?key "int idx" "prune (today - 30) loaded"] prune_dates
      by fastforce
    then have pr: "prune (today - 30) ?h = ?h" by (rule prune_id)
    have m: "map_of ?h ?key = Some (int idx)" by (simp add: update_conv')
    show ?thesis
      unfolding get_daily_player_def p using l' t pr m r f' by simp
  qed
qed

lemma squad_length: "length squad = 3"
  by (simp add: squad_def)

theorem daily_selection_idempotent_witness:
  "override False None = None \<and> load_recent_players cached = Inr [(Datetime 739924 0, 1)]
   \<and> (30::int) < 739924
   \<and> map_of (prune (739924 - 30) [(Datetime 739924 0, 1)]) (Datetime 739924 0) = Some 1
   \<and> (0::int) \<le> 1 \<and> 1 < int (length squad)
   \<and> get_daily_player randbelow_mod squad False None 739924 cached = (Inr (nat 1, squad ! nat 1), cached)
   \<and> get_daily_player randbelow_mod squad False None 739924 Missing
       = (Inr (0, squad ! 0), Json (JObject [(Iso (Datetime 739924 0), 0)]))
   \<and> get_daily_player randbelow_mod squad False None 739924 (Json (JObject [(Iso (Datetime 739924 0), 0)]))
       = (Inr (0, squad ! 0), Json (JObject [(Iso (Datetime 739924 0), 0)]))"
proof -
  have h1: "override False None = None" by (simp add: override_def)
  have h2: "load_recent_players cached = Inr [(Datetime 739924 0, 1)]"
    by (simp add: load_recent_players_def cached_def)
  have h3: "(30::int) < 739924" by simp
  have h4: "map_of (prune (739924 - 30) [(Datetime 739924 0, 1)]) (Datetime 739924 0) = Some (1::int)"
    by (simp add: prune_def)
  have h5: "(0::int) \<le> 1 \<and> 1 < int (length squad)" by (simp add: squad_length)
  have first: "get_daily_player randbelow_mod squad False None 739924 Missing
       = (Inr (0, squad ! 0), Json (JObject [(Iso (Datetime 739924 0), 0)]))"
    by (simp add: get_daily_player_def override_def load_recent_players_def prune_def choice_def
          all_indices_squad squad_length iloc_def year_yday_def save_recent_players_def
          randbelow_mod_def)
  from daily_selection_idempotent[of False None cached "[(Datetime 739924 0, 1)]" 739924 1 squad
      randbelow_mod] h1 h2 h3 h4 h5
  have a: "get_daily_player randbelow_mod squad False None 739924 cached
           = (Inr (nat 1, squad ! nat 1), cached)" by blast
  from daily_selection_idempotent[of False None Missing "[]" 739924 0 squad randbelow_mod
      "(0, squad ! 0)" "Json (JObject [(Iso (Datetime 739924 0), 0)])"] first
  have b: "get_daily_player randbelow_mod squad False None 739924
             (Json (JObject [(Iso (Datetime 739924 0), 0)]))
           = (Inr (0, squad ! 0), Json (JObject [(Iso (Datetime 739924 0), 0)]))" by blast
  from h1 h2 h3 h4 h5 a first b show ?thesis by blast
qed

lemma distinct_all_indices: "distinct (all_indices players)"
  by (simp add: all_indices_def)

lemma available_nonempty:
  assumes "distinct xs" and "length h < length xs"
  shows "filter (\<lambda>idx. int idx \<notin> snd ` set h) xs \<noteq> []"
proof
  assume "filter (\<lambda>idx. int idx \<notin> snd ` set h) xs = []"
  then have "int ` set xs \<subseteq> snd ` set h" by (auto simp: filter_empty_conv)
  then have "card (int ` set xs) \<le> card (snd ` set h)" by (simp add: card_mono)
  also have "\<dots> \<le> length h" by (metis card_image_le card_length le_trans List.finite_set)
  finally have "card (int ` set xs) \<le> length h" .
  moreover have "card (int ` set xs) = length xs"
    using assms(1) by (simp add: card_image distinct_card)
  ultimately show False using assms(2) by simp
qed

lemma fresh_day:
  assumes ok: "randbelow_ok randbelow"
    and l: "load_recent_players f = Inr h"
    and t: "30 < today"
    and old: "\<forall>x \<in> set h. today - 30 \<le> date_of (fst x) \<and> date_of (fst x) < today"
    and few: "length h < length (all_indices players)"
  shows "\<exists>idx. idx \<in> set (all_indices players) \<and> int idx \<notin> snd ` set h
           \<and> get_daily_player randbelow players False None today f
             = (Inr (idx, players ! idx), save_recent_players (h @ [(Datetime today 0, int idx)]))"
proof -
  let ?key = "Datetime today 0"
  let ?seed = "fst (year_yday today) * 1000 + snd (year_yday today)"
  let ?avail = "filter (\<lambda>idx. int idx \<notin> snd ` set h) (all_indices players)"
  from old have pr: "prune (today - 30) h = h" by (simp add: prune_id)
  have "?key \<notin> fst ` set h"
  proof
    assume "?key \<in> fst ` set h"
    then obtain x where "x \<in> set h" "fst x = ?key" by auto
    with old show False by fastforce
  qed
  then have none: "map_of h ?key = None" by (simp add: map_of_eq_None_iff)
  from available_nonempty[OF distinct_all_indices few] have ne: "?avail \<noteq> []" .
  let ?i = "randbelow ?seed (length ?avail)"
  from ok ne have i: "?i < length ?avail" by (simp add: randbelow_ok_def)
  then have mem: "?avail ! ?i \<in> set ?avail" by (rule nth_mem)
  then have m1: "?avail ! ?i \<in> set (all_indices players)" and m2: "int (?avail ! ?i) \<notin> snd ` set h"
    by simp_all
  have ch: "choice randbelow ?seed ?avail = Inr (?avail ! ?i)"
    using ne i by (simp add: choice_def)
  have "get_daily_player randbelow players False None today f
             = (Inr (?avail ! ?i, players ! (?avail ! ?i)),
                save_recent_players (h @ [(?key, int (?avail ! ?i))]))"
    unfolding get_daily_player_def
    using l t pr none ne ch iloc_nat[OF all_indices_lt[OF m1]] update_absent[OF none]
    by (simp add: Let_def override_def)
  with m1 m2 show ?thesis by blast
qed

lemma select_days_distinct:
  assumes ok: "randbelow_ok randbelow" and pool: "30 \<le> length (all_indices players)"
  shows "load_recent_players f = Inr h \<Longrightarrow> distinct (map fst h) \<Longrightarrow> 30 < e \<Longrightarrow>
     \<forall>x \<in> set h. e + int m - 31 \<le> date_of (fst x) \<and> date_of (fst x) < e \<Longrightarrow>
     length h + m \<le> 30 \<Longrightarrow>
     \<exists>idxs f'. select_days randbelow players (map (\<lambda>i. e + int i) [0..<m]) f = (Inr idxs, f')
        \<and> length idxs = m \<and> distinct idxs \<and> (\<forall>i \<in> set idxs. int i \<notin> snd ` set h)"
proof (induction m arbitrary: e f h)
  case 0
  then show ?case by simp
next
  case (Suc m)
  have days: "map (\<lambda>i. e + int i) [0..<Suc m] = e # map (\<lambda>i. (e + 1) + int i) [0..<m]"
    by (simp add: upt_rec[of 0 "Suc m"] map_Suc_upt[symmetric] del: upt_Suc) 
  from Suc.prems(4) have old: "\<forall>x \<in> set h. e - 30 \<le> date_of (fst x) \<and> date_of (fst x) < e"
    by fastforce
  from Suc.prems(5) pool have few: "length h < length (all_indices players)" by simp
  from fresh_day[OF ok Suc.prems(1) Suc.prems(3) old few] obtain idx where
    idx: "idx \<in> set (all_indices players)" "int idx \<notin> snd ` set h"
    and g: "get_daily_player randbelow players False None e f
             = (Inr (idx, players ! idx), save_recent_players (h @ [(Datetime e 0, int idx)]))"
    by blast
  let ?h1 = "h @ [(Datetime e 0, int idx)]"
  have "Datetime e 0 \<notin> fst ` set h" using old by fastforce
  with Suc.prems(2) have d1: "distinct (map fst ?h1)" by simp
  then have l1: "load_recent_players (save_recent_players ?h1) = Inr ?h1" by (rule load_save)
  have e1: "30 < e + 1" using Suc.prems(3) by simp
  have old1: "\<forall>x \<in> set ?h1. (e + 1) + int m - 31 \<le> date_of (fst x) \<and> date_of (fst x) < e + 1"
  proof
    fix x assume "x \<in> set ?h1"
    then have "x \<in> set h \<or> x = (Datetime e 0, int idx)" by auto
    then show "(e + 1) + int m - 31 \<le> date_of (fst x) \<and> date_of (fst x) < e + 1"
    proof
      assume "x \<in> set h"
      with Suc.prems(4) have "e + int (Suc m) - 31 \<le> date_of (fst x) \<and> date_of (fst x) < e"
        by blast
      then show ?thesis by simp
    next
      assume "x = (Datetime e 0, int idx)"
      with Suc.prems(5) show ?thesis by simp
    qed
  qed
  have len1: "length ?h1 + m \<le> 30" using Suc.prems(5) by simp
  from Suc.IH[OF l1 d1 e1 old1 len1] obtain idxs f' where
    s: "select_days randbelow players (map (\<lambda>i. (e + 1) + int i) [0..<m]) (save_recent_players ?h1)
          = (Inr idxs, f')"
    and n: "length idxs = m" and di: "distinct idxs"
    and fresh: "\<forall>i \<in> set idxs. int i \<notin> snd ` set ?h1"
    by blast
  from fresh have "idx \<notin> set idxs" by force
  moreover from fresh have "\<forall>i \<in> set idxs. int i \<notin> snd ` set h" by force
  moreover have "select_days randbelow players (map (\<lambda>i. e + int i) [0..<Suc m]) f
      = (Inr (idx # idxs), f')"
    unfolding days using g s by simp
  ultimately show ?case using n di idx(2) by simp
qed

text \<open>
  Claim C3.  Starting from a file that loads as the empty history, for at most 30
  consecutive dates and an eligible pool of at least 30 indices, every daily selection
  succeeds and the selected indices are pairwise distinct.
\<close>

theorem no_repeat_window:
  assumes "randbelow_ok randbelow" and "load_recent_players f = Inr []"
    and "30 < d" and "k \<le> 30" and "30 \<le> length (all_indices players)"
  shows "\<exists>idxs f'. select_days randbelow players (map (\<lambda>i. d + int i) [0..<k]) f = (Inr idxs, f')
           \<and> length idxs = k \<and> distinct idxs"
  using select_days_distinct[OF assms(1) assms(5) assms(2), of d k] assms(3,4) by auto

lemma all_indices_replicate: "0 < appearances p \<Longrightarrow> all_indices (replicate n p) = [0..<n]"
  by (simp add: all_indices_def)

theorem no_repeat_window_witness:
  "randbelow_ok randbelow_mod \<and> load_recent_players Missing = Inr [] \<and> (30::int) < 739924
   \<and> (3::nat) \<le> 30 \<and> 30 \<le> length (all_indices big_squad)
   \<and> (\<exists>idxs f'. select_days randbelow_mod big_squad (map (\<lambda>i. 739924 + int i) [0..<3]) Missing
          = (Inr idxs, f') \<and> length idxs = 3 \<and> distinct idxs)"
proof -
  have h2: "load_recent_players Missing = Inr []" by (simp add: load_recent_players_def)
  have h3: "(30::int) < 739924" by simp
  have h4: "(3::nat) \<le> 30" by simp
  have "0 < appearances dunk" by (simp add: dunk_def)
  then have h5: "30 \<le> length (all_indices big_squad)"
    by (simp add: big_squad_def all_indices_replicate)
  from no_repeat_window[OF randbelow_ok_mod h2 h3 h4 h5] randbelow_ok_mod h2 h3 h4 h5
  show ?thesis by blast
qed

section \<open>Properties of the routes\<close>

lemma normalize_map:
  "normalize_str s = map (\<lambda>c. if c = 8216 \<or> c = 8217 then 39 else if c = 8220 \<or> c = 8221 then 34 else c) s"
  by (simp add: normalize_str_def replace_def)

lemma normalize_lower_ascii:
  "normalize_str (lower_ascii (normalize_str s)) = normalize_str (lower_ascii s)"
  by (simp add: normalize_map lower_ascii_def)

lemma split_name_omahony:
  "first_name omahony = S ''Mark'' \<and> last_name omahony = S ''O'' @ [39] @ S ''Mahony''"
  by (simp add: first_name_def last_name_def split_name_def omahony_def S_def strip_def
        strip_where_def isspace_def)

lemma build_clues_nonempty:
  assumes "permutes shuffle"
  shows "build_clues years_of shuffle p g \<noteq> []"
proof -
  have "set (nonblank (tier_3 p)) \<noteq> {}" by (simp add: nonblank_tier_3)
  then have "clue_defs years_of shuffle p g \<noteq> []"
    using set_clue_defs[OF assms, of years_of p g] by auto
  then obtain c t rest where "clue_defs years_of shuffle p g = (c, t) # rest"
    by (cases "clue_defs years_of shuffle p g") auto
  then show ?thesis by (simp add: build_clues_def build_clues_tagged_def)
qed

text \<open>
  Claim C8.  The guess check replaces the four curly quotes U+2018, U+2019, U+201C and
  U+201D by the straight ASCII quotes; it compares the lower-cased, normalised guess with
  the lower-cased, normalised stored first and last name, and returns the full name
  exactly when the guess is correct.  Guesses with the same lower-case form get the same
  answer, and so do a guess and its normalised form.  For the stored name
  \<open>Mark O'Mahony\<close> the guess \<open>Mark\<close>, \<open>O\<close>U+2019\<open>Mahony\<close> is correct.
\<close>

theorem check_guess_normalizes:
  "normalize_str s = map (\<lambda>c. if c = 8216 \<or> c = 8217 then 39
                            else if c = 8220 \<or> c = 8221 then 34 else c) s
   \<and> (check_guess lower players pid first_guess last_guess = Inr r \<longrightarrow>
        (\<exists>label p. iloc players pid = Inr (label, p)
           \<and> correct r = (normalize_str (lower first_guess) = normalize_str (lower (first_name p))
                          \<and> normalize_str (lower last_guess) = normalize_str (lower (last_name p)))
           \<and> fullName r = (if correct r then Some (strip (first_name p @ S '' '' @ last_name p))
                            else None)))
   \<and> (lower first_guess = lower first_guess' \<and> lower last_guess = lower last_guess' \<longrightarrow>
        check_guess lower players pid first_guess last_guess
        = check_guess lower players pid first_guess' last_guess')
   \<and> check_guess lower_ascii players pid (normalize_str first_guess) (normalize_str last_guess)
       = check_guess lower_ascii players pid first_guess last_guess
   \<and> check_guess lower_ascii [omahony] 0 (S ''Mark'') (S ''O'' @ [8217] @ S ''Mahony'')
       = Inr \<lparr> correct = True, fullName = Some (S ''Mark O'' @ [39] @ S ''Mahony'') \<rparr>"
proof (intro conjI impI)
  show "normalize_str s = map (\<lambda>c. if c = 8216 \<or> c = 8217 then 39
                            else if c = 8220 \<or> c = 8221 then 34 else c) s"
    by (rule normalize_map)
next
  assume "check_guess lower players pid first_guess last_guess = Inr r"
  then show "\<exists>label p. iloc players pid = Inr (label, p)
           \<and> correct r = (normalize_str (lower first_guess) = normalize_str (lower (first_name p))
                          \<and> normalize_str (lower last_guess) = normalize_str (lower (last_name p)))
           \<and> fullName r = (if correct r then Some (strip (first_name p @ S '' '' @ last_name p))
                            else None)"
    by (cases "iloc players pid") (auto simp: check_guess_def Let_def)
next
  assume "lower first_guess = lower first_guess' \<and> lower last_guess = lower last_guess'"
  then show "check_guess lower players pid first_guess last_guess
        = check_guess lower players pid first_guess' last_guess'"
    by (simp add: check_guess_def)
next
  show "check_guess lower_ascii players pid (normalize_str first_guess) (normalize_str last_guess)
       = check_guess lower_ascii players pid first_guess last_guess"
    by (cases "iloc players pid") (auto simp: check_guess_def normalize_lower_ascii)
next
  show "check_guess lower_ascii [omahony] 0 (S ''Mark'') (S ''O'' @ [8217] @ S ''Mahony'')
       = Inr \<lparr> correct = True, fullName = Some (S ''Mark O'' @ [39] @ S ''Mahony'') \<rparr>"
    by (simp add: check_guess_def iloc_def split_name_omahony normalize_map lower_ascii_def
          S_def strip_def strip_where_def isspace_def)
qed

theorem check_guess_normalizes_witness:
  "check_guess lower_ascii [omahony] 0 (S ''MARK'') (S ''o'' @ [8217] @ S ''mahony'')
     = Inr \<lparr> correct = True, fullName = Some (S ''Mark O'' @ [39] @ S ''Mahony'') \<rparr>
   \<and> lower_ascii (S ''MARK'') = lower_ascii (S ''Mark'')
   \<and> lower_ascii (S ''o'' @ [8217] @ S ''mahony'') = lower_ascii (S ''O'' @ [8217] @ S ''Mahony'')
   \<and> (\<exists>label p. iloc [omahony] 0 = Inr (label, p)
         \<and> correct \<lparr> correct = True, fullName = Some (S ''Mark O'' @ [39] @ S ''Mahony'') \<rparr>
            = (normalize_str (lower_ascii (S ''MARK'')) = normalize_str (lower_ascii (first_name p))
               \<and> normalize_str (lower_ascii (S ''o'' @ [8217] @ S ''mahony''))
                 = normalize_str (lower_ascii (last_name p))))"
proof -
  let ?r = "\<lparr> correct = True, fullName = Some (S ''Mark O'' @ [39] @ S ''Mahony'') \<rparr>"
  note t = check_guess_normalizes[of "[]" lower_ascii "[omahony]" 0 "S ''MARK''"
      "S ''o'' @ [8217] @ S ''mahony''" ?r "S ''Mark''" "S ''O'' @ [8217] @ S ''Mahony''"]
  have l1: "lower_ascii (S ''MARK'') = lower_ascii (S ''Mark'')"
    by (simp add: lower_ascii_def S_def)
  have l2: "lower_ascii (S ''o'' @ [8217] @ S ''mahony'') = lower_ascii (S ''O'' @ [8217] @ S ''Mahony'')"
    by (simp add: lower_ascii_def S_def)
  from t l1 l2 have c: "check_guess lower_ascii [omahony] 0 (S ''MARK'') (S ''o'' @ [8217] @ S ''mahony'') = Inr ?r"
    by simp
  with t have "\<exists>label p. iloc [omahony] 0 = Inr (label, p)
         \<and> correct ?r = (normalize_str (lower_ascii (S ''MARK'')) = normalize_str (lower_ascii (first_name p))
               \<and> normalize_str (lower_ascii (S ''o'' @ [8217] @ S ''mahony''))
                 = normalize_str (lower_ascii (last_name p)))
         \<and> fullName ?r = (if correct ?r then Some (strip (first_name p @ S '' '' @ last_name p))
                            else None)" by blast
  then have "\<exists>label p. iloc [omahony] 0 = Inr (label, p)
         \<and> correct ?r = (normalize_str (lower_ascii (S ''MARK'')) = normalize_str (lower_ascii (first_name p))
               \<and> normalize_str (lower_ascii (S ''o'' @ [8217] @ S ''mahony''))
                 = normalize_str (lower_ascii (last_name p)))" by blast
  with c l1 l2 show ?thesis by blast
qed

text \<open>
  Claim C10.  A response of the daily challenge carries the answer: its \<open>firstName\<close> and
  \<open>lastName\<close> are the first and last name of the selected player, and the two length
  fields are the lengths of these strings.  Whenever a player is selected, the response
  is such a challenge.
\<close>

theorem challenge_reveals_name:
  "(get_challenge years_of shuffle mk_rng randbelow players debug current_player_index today f
      = (Inr ch, f') \<longrightarrow>
      (\<exists>label p. get_daily_player randbelow players debug current_player_index today f
                   = (Inr (label, p), f')
         \<and> player_id ch = label
         \<and> firstName ch = first_name p \<and> lastName ch = last_name p
         \<and> firstNameLength ch = length (first_name p)
         \<and> lastNameLength ch = length (last_name p)))
   \<and> (permutes shuffle
        \<and> get_daily_player randbelow players debug current_player_index today f
             = (Inr (label, p), f') \<longrightarrow>
      (\<exists>c. get_challenge years_of shuffle mk_rng randbelow players debug current_player_index today f
             = (Inr \<lparr> firstNameLength = length (first_name p),
                      lastNameLength = length (last_name p),
                      firstClue = c, player_id = label,
                      firstName = first_name p, lastName = last_name p \<rparr>, f')))"
proof (intro conjI impI)
  assume a: "get_challenge years_of shuffle mk_rng randbelow players debug current_player_index today f
      = (Inr ch, f')"
  obtain res f1 where g: "get_daily_player randbelow players debug current_player_index today f
      = (res, f1)" by force
  show "\<exists>label p. get_daily_player randbelow players debug current_player_index today f
                   = (Inr (label, p), f')
         \<and> player_id ch = label
         \<and> firstName ch = first_name p \<and> lastName ch = last_name p
         \<and> firstNameLength ch = length (first_name p)
         \<and> lastNameLength ch = length (last_name p)"
  proof (cases res)
    case (Inl e)
    with a g show ?thesis by (simp add: get_challenge_def)
  next
    case (Inr row)
    obtain label p where row: "row = (label, p)" by (cases row)
    show ?thesis
    proof (cases "build_clues years_of shuffle p (mk_rng today label)")
      case Nil
      with a g Inr row show ?thesis by (simp add: get_challenge_def)
    next
      case (Cons c cs)
      with a g Inr row show ?thesis by (auto simp: get_challenge_def)
    qed
  qed
next
  assume a: "permutes shuffle
        \<and> get_daily_player randbelow players debug current_player_index today f
             = (Inr (label, p), f')"
  then have "build_clues years_of shuffle p (mk_rng today label) \<noteq> []"
    by (simp add: build_clues_nonempty)
  then obtain c cs where "build_clues years_of shuffle p (mk_rng today label) = c # cs"
    by (cases "build_clues years_of shuffle p (mk_rng today label)") auto
  with a show "\<exists>c. get_challenge years_of shuffle mk_rng randbelow players debug current_player_index today f
             = (Inr \<lparr> firstNameLength = length (first_name p),
                      lastNameLength = length (last_name p),
                      firstClue = c, player_id = label,
                      firstName = first_name p, lastName = last_name p \<rparr>, f')"
    by (simp add: get_challenge_def)
qed

theorem challenge_reveals_name_witness:
  "permutes rotate_shuffle
   \<and> get_daily_player randbelow_mod squad False None 739924 Missing
       = (Inr (0, squad ! 0), Json (JObject [(Iso (Datetime 739924 0), 0)]))
   \<and> first_name (squad ! 0) = S ''Lewis'' \<and> last_name (squad ! 0) = S ''Dunk''
   \<and> (\<exists>c. get_challenge find_years rotate_shuffle rng_of randbelow_mod squad False None 739924 Missing
         = (Inr \<lparr> firstNameLength = 5, lastNameLength = 4, firstClue = c, player_id = 0,
                  firstName = S ''Lewis'', lastName = S ''Dunk'' \<rparr>,
            Json (JObject [(Iso (Datetime 739924 0), 0)])))"
proof -
  have first: "get_daily_player randbelow_mod squad False None 739924 Missing
       = (Inr (0, squad ! 0), Json (JObject [(Iso (Datetime 739924 0), 0)]))"
    by (simp add: get_daily_player_def override_def load_recent_players_def prune_def choice_def
          all_indices_squad squad_length iloc_def year_yday_def save_recent_players_def
          randbelow_mod_def)
  have n: "first_name (squad ! 0) = S ''Lewis'' \<and> last_name (squad ! 0) = S ''Dunk''"
    by (simp add: first_name_def last_name_def split_name_def squad_def dunk_def S_def strip_def
        strip_where_def isspace_def)
  from challenge_reveals_name[of find_years rotate_shuffle rng_of randbelow_mod squad False None
      739924 Missing _ "Json (JObject [(Iso (Datetime 739924 0), 0)])" 0 "squad ! 0"]
    permutes_rotate_shuffle first
  have "\<exists>c. get_challenge find_years rotate_shuffle rng_of randbelow_mod squad False None 739924 Missing
             = (Inr \<lparr> firstNameLength = length (first_name (squad ! 0)),
                      lastNameLength = length (last_name (squad ! 0)),
                      firstClue = c, player_id = 0,
                      firstName = first_name (squad ! 0), lastName = last_name (squad ! 0) \<rparr>,
                Json (JObject [(Iso (Datetime 739924 0), 0)]))" by blast
  moreover have "length (S ''Lewis'') = 5" "length (S ''Dunk'') = 4" by (simp_all add: S_def)
  ultimately have "\<exists>c. get_challenge find_years rotate_shuffle rng_of randbelow_mod squad False None 739924 Missing
         = (Inr \<lparr> firstNameLength = 5, lastNameLength = 4, firstClue = c, player_id = 0,
                  firstName = S ''Lewis'', lastName = S ''Dunk'' \<rparr>,
            Json (JObject [(Iso (Datetime 739924 0), 0)]))" using n by simp
  with permutes_rotate_shuffle first n show ?thesis by blast
qed

end
